theory Spec2Isabelle
  imports Complex_Main
begin

section \<open>Numerical values and errors\<close>

text \<open>
  The module \<^verbatim>\<open>sellac/peswrapper.py\<close> defines the classes \<^verbatim>\<open>PES\<close> and
  \<^verbatim>\<open>InternalPES\<close>. Floating-point numbers are modelled as reals (no rounding, no NaN),
  one-dimensional arrays as lists, two-dimensional arrays as lists of rows, and the
  \<^verbatim>\<open>(n, 3)\<close> position array of the structure as a list of triples.
\<close>

type_synonym vec = "real list"
type_synonym mat = "real list list"
type_synonym pos3 = "real \<times> real \<times> real"

text \<open>What a cache entry can hold: \<^verbatim>\<open>None\<close>, a float, an array or a matrix.\<close>

datatype pyval = PyNone | Num real | Vec vec | Mat mat

text \<open>
  Exceptions. \<open>CalcError\<close> stands for whatever the external energy/force evaluator raises,
  \<open>NumpyError\<close> for the \<^verbatim>\<open>ValueError\<close> or \<^verbatim>\<open>TypeError\<close> numpy raises on operands of the
  wrong shape or kind; the others are Python's own.
\<close>

datatype error =
    RuntimeError string
  | NumpyError
  | KeyError
  | AssertionError
  | AttributeError
  | UnboundLocalError
  | CalcError

text \<open>\<^verbatim>\<open>a.ravel()\<close> of an \<^verbatim>\<open>(n, 3)\<close> array, and \<^verbatim>\<open>v.reshape((-1, 3))\<close>, which raises
  when the size is not a multiple of three.\<close>

fun ravel :: "pos3 list \<Rightarrow> vec" where
  "ravel [] = []"
| "ravel ((a, b, c) # ps) = a # b # c # ravel ps"

fun reshape3 :: "vec \<Rightarrow> error + pos3 list" where
  "reshape3 [] = Inr []"
| "reshape3 (a # b # c # r) =
     (case reshape3 r of Inl e \<Rightarrow> Inl e | Inr ps \<Rightarrow> Inr ((a, b, c) # ps))"
| "reshape3 _ = Inl NumpyError"

text \<open>\<^verbatim>\<open>a - b\<close> on one-dimensional arrays, with numpy's broadcasting of a length-one operand.\<close>

definition np_sub :: "vec \<Rightarrow> vec \<Rightarrow> error + vec" where
  "np_sub a b =
     (if length a = length b then Inr (map2 (-) a b)
      else if length a = 1 then Inr (map (\<lambda>y. hd a - y) b)
      else if length b = 1 then Inr (map (\<lambda>x. x - hd b) a)
      else Inl NumpyError)"

text \<open>\<^verbatim>\<open>d[k]\<close> raises \<^verbatim>\<open>KeyError\<close> on a missing key; \<^verbatim>\<open>d.get(k, default)\<close> does not.\<close>

definition getitem :: "(string \<rightharpoonup> pyval) \<Rightarrow> string \<Rightarrow> error + pyval" where
  "getitem d k = (case d k of None \<Rightarrow> Inl KeyError | Some v \<Rightarrow> Inr v)"

definition dict_get :: "(string \<rightharpoonup> pyval) \<Rightarrow> string \<Rightarrow> pyval \<Rightarrow> pyval" where
  "dict_get d k dflt = (case d k of None \<Rightarrow> dflt | Some v \<Rightarrow> v)"

text \<open>\<^verbatim>\<open>np.all(x == v)\<close> for an array \<open>x\<close> and a cache entry \<open>v\<close> that is not \<^verbatim>\<open>None\<close>. Under
  \<^verbatim>\<open>'x'\<close> the cache holds \<^verbatim>\<open>None\<close> or an array of the length of \<open>x\<close>; the other kinds of
  values are never stored there and compare unequal.\<close>

fun np_all_eq :: "vec \<Rightarrow> pyval \<Rightarrow> bool" where
  "np_all_eq x (Vec y) = (x = y)"
| "np_all_eq x _ = False"

section \<open>The external collaborators\<close>

text \<open>
  The structure with its energy/force evaluator, the constraint system and the linear
  algebra helpers are not part of the module. They are parameters: the evaluator maps the
  positions of the structure to an energy and to forces (or raises), the constraint system
  to a residual and a Jacobian. \<open>calc_basis\<close> stands for \<^verbatim>\<open>PES._calc_basis\<close>, whose
  Gram-Schmidt helper lives in another module; it returns \<^verbatim>\<open>drdx, Ucons, Unred, Ufree\<close>.
\<close>

record env =
  atoms_energy :: "pos3 list \<Rightarrow> error + real"
  atoms_forces :: "pos3 list \<Rightarrow> error + pos3 list"
  cons_residual :: "pos3 list \<Rightarrow> vec"
  cons_jacobian :: "pos3 list \<Rightarrow> mat"
  calc_basis :: "pos3 list \<Rightarrow> mat \<times> mat \<times> mat \<times> mat"
  lstsq :: "mat \<Rightarrow> vec \<Rightarrow> vec"

section \<open>The state of a PES object\<close>

text \<open>
  Modelled from the spec: the class \<^verbatim>\<open>ApproximateHessian\<close> of \<^verbatim>\<open>sellac.linalg\<close> is not
  in this module. Following the data model it is a matrix that carries an "initialized"
  flag; the constructor call \<^verbatim>\<open>ApproximateHessian(dim, ncart, target, initialized=b)\<close>
  stores its arguments.
\<close>

record approx_hessian =
  h_dim :: nat
  h_ncart :: nat
  h_B :: "mat option"
  initialized :: bool

definition ApproximateHessian :: "nat \<Rightarrow> nat \<Rightarrow> mat option \<Rightarrow> bool \<Rightarrow> approx_hessian" where
  "ApproximateHessian d n target b = \<lparr>h_dim = d, h_ncart = n, h_B = target, initialized = b\<rparr>"

text \<open>
  The fields of \<^verbatim>\<open>self\<close>. \<open>positions\<close> is \<^verbatim>\<open>self.atoms.positions\<close>; \<open>curr\<close> and \<open>last\<close> are the
  two cache dictionaries; \<open>sp_apos\<close> and \<open>sp_dpos\<close> are the two entries of
  \<^verbatim>\<open>self.savepoint\<close>; \<open>log\<close> collects the lines printed. The fields \<^verbatim>\<open>eigensolver\<close>,
  \<^verbatim>\<open>traj\<close>, \<^verbatim>\<open>eta\<close> and \<^verbatim>\<open>v0\<close> are only read by \<^verbatim>\<open>diag\<close> and \<^verbatim>\<open>write_traj\<close> and are left out.

  \<^verbatim>\<open>_update\<close> binds \<^verbatim>\<open>self.last\<close> to the old dictionary and \<^verbatim>\<open>self.curr\<close> to a fresh one, and
  the constructor copies, so the two names never alias one dictionary: maps as values
  are faithful.
\<close>

record pes =
  positions :: "pos3 list"
  neval :: nat
  curr :: "string \<rightharpoonup> pyval"
  last :: "string \<rightharpoonup> pyval"
  dim :: nat
  ncart :: nat
  H :: approx_hessian
  sp_apos :: "pos3 list option"
  sp_dpos :: "pos3 list option"
  first_diag :: bool
  log :: "string list"

text \<open>A method returns its value or the exception raised, together with the object as
  the call left it: what was mutated before a \<^verbatim>\<open>raise\<close> stays mutated.\<close>

type_synonym ('a, 's) res = "(error + 'a) \<times> 's"

definition empty_cache :: "string \<rightharpoonup> pyval" where
  "empty_cache = [''x'' \<mapsto> PyNone, ''f'' \<mapsto> PyNone, ''g'' \<mapsto> PyNone,
                  ''gfree'' \<mapsto> PyNone, ''hfree'' \<mapsto> PyNone]"

text \<open>\<^verbatim>\<open>PES.set_H(target, initialized=b)\<close>.\<close>

definition set_H :: "mat option \<Rightarrow> bool \<Rightarrow> 's pes_scheme \<Rightarrow> 's pes_scheme" where
  "set_H target b s = s\<lparr>H := ApproximateHessian (dim s) (ncart s) target b\<rparr>"

text \<open>
  \<^verbatim>\<open>PES.__init__\<close>. The constraint set-up (\<^verbatim>\<open>fix_translation\<close>, \<^verbatim>\<open>fix_rotation\<close>) acts on the
  external constraint system only; the environment is that system after the constructor.
  A record has all its fields from the start, so \<open>H\<close> holds a placeholder until the
  call of \<^verbatim>\<open>set_H\<close> that ends the constructor's work on it.
\<close>

definition PES_init :: "pos3 list \<Rightarrow> mat option \<Rightarrow> pes" where
  "PES_init atoms H0 =
     (let s = \<lparr>positions = atoms, neval = 0, curr = empty_cache, last = empty_cache,
               dim = 3 * length atoms, ncart = 3 * length atoms,
               H = ApproximateHessian 0 0 None False,
               sp_apos = None, sp_dpos = None, first_diag = True, log = []\<rparr>
      in case H0 of None \<Rightarrow> set_H None False s | Some h \<Rightarrow> set_H (Some h) True s)"

section \<open>Positions, save and restore\<close>

text \<open>\<^verbatim>\<open>apos = property(lambda self: self.atoms.positions.copy())\<close> and \<^verbatim>\<open>PES.get_x\<close>.\<close>

definition apos :: "'s pes_scheme \<Rightarrow> pos3 list" where
  "apos s = positions s"

definition PES_get_x :: "pes \<Rightarrow> vec" where
  "PES_get_x s = ravel (apos s)"

text \<open>
  \<^verbatim>\<open>PES.set_x\<close>. The subtraction raises on a target of another length unless that length
  is one, and then the reshape raises; the assignment to \<^verbatim>\<open>self.atoms.positions\<close> is reached
  with an array of the shape of the old one only.
\<close>

definition PES_set_x :: "vec \<Rightarrow> pes \<Rightarrow> (vec \<times> vec \<times> pyval, pes) res" where
  "PES_set_x target s =
     (case np_sub target (PES_get_x s) of
        Inl e \<Rightarrow> (Inl e, s)
      | Inr diff \<Rightarrow>
         (case reshape3 target of
            Inl e \<Rightarrow> (Inl e, s)
          | Inr ps \<Rightarrow>
             (Inr (diff, diff, dict_get (curr s) ''g'' (Vec (replicate (length diff) 0))),
              s\<lparr>positions := ps\<rparr>)))"

text \<open>\<^verbatim>\<open>PES.save\<close> and \<^verbatim>\<open>PES.restore\<close>; \<^verbatim>\<open>dpos\<close> is \<^verbatim>\<open>None\<close> for a Cartesian PES, whose
  \<^verbatim>\<open>self.dummies\<close> is \<^verbatim>\<open>None\<close> too.\<close>

definition PES_save :: "pes \<Rightarrow> pes" where
  "PES_save s = s\<lparr>sp_apos := Some (apos s), sp_dpos := None\<rparr>"

definition PES_restore :: "pes \<Rightarrow> (unit, pes) res" where
  "PES_restore s =
     (case sp_apos s of
        None \<Rightarrow> (Inl AssertionError, s)
      | Some a \<Rightarrow>
         (case sp_dpos s of
            None \<Rightarrow> (Inr (), s\<lparr>positions := a\<rparr>)
          | Some d \<Rightarrow> (Inl AttributeError, s\<lparr>positions := a\<rparr>)))"

section \<open>Evaluation\<close>

text \<open>
  \<^verbatim>\<open>PES.eval\<close>: count, ask the evaluator for the energy and the forces, negate the
  ravelled forces. \<^verbatim>\<open>write_traj\<close> writes to the trajectory sink, which is outside the state.
\<close>

definition PES_eval :: "env \<Rightarrow> pes \<Rightarrow> (real \<times> vec, pes) res" where
  "PES_eval E s =
     (let s1 = s\<lparr>neval := neval s + 1\<rparr> in
      case atoms_energy E (positions s1) of
        Inl e \<Rightarrow> (Inl e, s1)
      | Inr f \<Rightarrow>
         (case atoms_forces E (positions s1) of
            Inl e \<Rightarrow> (Inl e, s1)
          | Inr fs \<Rightarrow> (Inr (f, map uminus (ravel fs)), s1)))"

text \<open>\<^verbatim>\<open>PES._calc_eg\<close>: nothing catches an exception of \<^verbatim>\<open>set_x\<close> or \<^verbatim>\<open>eval\<close>, so \<^verbatim>\<open>restore\<close>
  runs only when both returned.\<close>

definition PES_calc_eg :: "env \<Rightarrow> vec \<Rightarrow> pes \<Rightarrow> (real \<times> vec, pes) res" where
  "PES_calc_eg E x s =
     (let s1 = PES_save s in
      case PES_set_x x s1 of
        (Inl e, s2) \<Rightarrow> (Inl e, s2)
      | (Inr _, s2) \<Rightarrow>
         (case PES_eval E s2 of
            (Inl e, s3) \<Rightarrow> (Inl e, s3)
          | (Inr fg, s3) \<Rightarrow>
             (case PES_restore s3 of
                (Inl e, s4) \<Rightarrow> (Inl e, s4)
              | (Inr _, s4) \<Rightarrow> (Inr fg, s4))))"

section \<open>The cache and its update\<close>

text \<open>
  Lines 198 to 220 of \<^verbatim>\<open>PES._update\<close>, reached with \<open>new_point\<close> decided: the basis, the
  forced evaluation with its printed line, the evaluation, and the store into the cache.
\<close>

definition update_store ::
  "bool \<Rightarrow> vec \<Rightarrow> pyval \<Rightarrow> pyval \<Rightarrow> pyval \<Rightarrow> mat \<times> mat \<times> mat \<times> mat \<Rightarrow> pes \<Rightarrow> pes" where
  "update_store new_point x f g L b s =
     (case b of (drdx, Ucons, Unred, Ufree) \<Rightarrow>
        if new_point then
          s\<lparr>last := curr s,
            curr := [''x'' \<mapsto> Vec x, ''f'' \<mapsto> f, ''g'' \<mapsto> g, ''drdx'' \<mapsto> Mat drdx,
                     ''Ucons'' \<mapsto> Mat Ucons, ''Unred'' \<mapsto> Mat Unred,
                     ''Ufree'' \<mapsto> Mat Ufree, ''L'' \<mapsto> L]\<rparr>
        else s\<lparr>curr := (curr s)(''f'' \<mapsto> f, ''g'' \<mapsto> g, ''L'' \<mapsto> L)\<rparr>)"

definition update_from_basis :: "env \<Rightarrow> bool \<Rightarrow> bool \<Rightarrow> vec \<Rightarrow> pes \<Rightarrow> (bool, pes) res" where
  "update_from_basis E new_point feval x s =
     (let b = calc_basis E (positions s);
          forced = (new_point \<and> \<not> feval);
          s1 = (if forced then s\<lparr>log := log s @ [''Force change feval'']\<rparr> else s)
      in if feval \<or> forced then
           (case PES_eval E s1 of
              (Inl e, s2) \<Rightarrow> (Inl e, s2)
            | (Inr (f, g), s2) \<Rightarrow>
               (Inr True,
                update_store new_point x (Num f) (Vec g)
                  (Vec (lstsq E (transpose (fst b)) g)) b s2))
         else (Inr True, update_store new_point x PyNone PyNone PyNone b s1))"

text \<open>\<^verbatim>\<open>PES._update(feval)\<close>. The \<^verbatim>\<open>and\<close> of line 194 reads \<^verbatim>\<open>curr['f']\<close> only when \<open>feval\<close> holds.\<close>

definition PES_update :: "env \<Rightarrow> bool \<Rightarrow> pes \<Rightarrow> (bool, pes) res" where
  "PES_update E feval s =
     (let x = PES_get_x s in
      case getitem (curr s) ''x'' of
        Inl e \<Rightarrow> (Inl e, s)
      | Inr cx \<Rightarrow>
         if cx \<noteq> PyNone \<and> np_all_eq x cx then
           (if feval then
              (case getitem (curr s) ''f'' of
                 Inl e \<Rightarrow> (Inl e, s)
               | Inr cf \<Rightarrow>
                  if cf = PyNone then update_from_basis E False feval x s
                  else (Inr False, s))
            else (Inr False, s))
         else update_from_basis E True feval x s)"

text \<open>\<^verbatim>\<open>get_f\<close>, \<^verbatim>\<open>get_g\<close> (a copy of the cached array; \<^verbatim>\<open>None\<close> has no \<^verbatim>\<open>copy\<close>) and
  \<^verbatim>\<open>get_Ufree\<close>.\<close>

definition PES_get_f :: "env \<Rightarrow> pes \<Rightarrow> (pyval, pes) res" where
  "PES_get_f E s =
     (case PES_update E True s of
        (Inl e, s1) \<Rightarrow> (Inl e, s1)
      | (Inr _, s1) \<Rightarrow> (getitem (curr s1) ''f'', s1))"

definition PES_get_g :: "env \<Rightarrow> pes \<Rightarrow> (vec, pes) res" where
  "PES_get_g E s =
     (case PES_update E True s of
        (Inl e, s1) \<Rightarrow> (Inl e, s1)
      | (Inr _, s1) \<Rightarrow>
         (case getitem (curr s1) ''g'' of
            Inl e \<Rightarrow> (Inl e, s1)
          | Inr (Vec g) \<Rightarrow> (Inr g, s1)
          | Inr _ \<Rightarrow> (Inl AttributeError, s1)))"

definition PES_get_Ufree :: "env \<Rightarrow> pes \<Rightarrow> (pyval, pes) res" where
  "PES_get_Ufree E s =
     (case PES_update E False s of
        (Inl e, s1) \<Rightarrow> (Inl e, s1)
      | (Inr _, s1) \<Rightarrow> (getitem (curr s1) ''Ufree'', s1))"

section \<open>Projected forces and convergence\<close>

text \<open>
  Matrix products with numpy's shape check. A matrix is the list of its rows, so a matrix
  with no rows has no column count and conforms with everything. \<open>matmul_T A B\<close> is
  \<^verbatim>\<open>A @ B.T\<close>, whose entry \<open>(i, j)\<close> is the product of row \<open>i\<close> of \<open>A\<close> and row \<open>j\<close> of \<open>B\<close>;
  \<open>matmul A B\<close> is \<^verbatim>\<open>A @ B\<close>.
\<close>

definition dot :: "vec \<Rightarrow> vec \<Rightarrow> real" where
  "dot u v = sum_list (map2 (*) u v)"

definition matvec :: "mat \<Rightarrow> vec \<Rightarrow> error + vec" where
  "matvec M v =
     (if list_all (\<lambda>r. length r = length v) M then Inr (map (\<lambda>r. dot r v) M)
      else Inl NumpyError)"

definition matmul_T :: "mat \<Rightarrow> mat \<Rightarrow> error + mat" where
  "matmul_T A B =
     (if list_all (\<lambda>r. list_all (\<lambda>c. length c = length r) B) A
      then Inr (map (\<lambda>r. map (\<lambda>c. dot r c) B) A)
      else Inl NumpyError)"

definition matmul :: "mat \<Rightarrow> mat \<Rightarrow> error + mat" where
  "matmul A B =
     (if list_all (\<lambda>r. length r = length B) A
      then Inr (map (\<lambda>r. map (\<lambda>c. dot r c) (transpose B)) A)
      else Inl NumpyError)"

definition scale :: "real \<Rightarrow> mat \<Rightarrow> mat" where
  "scale c M = map (map ((*) c)) M"

definition norm3 :: "pos3 \<Rightarrow> real" where
  "norm3 p = (case p of (a, b, c) \<Rightarrow> sqrt (a * a + b * b + c * c))"

definition l2norm :: "vec \<Rightarrow> real" where
  "l2norm v = sqrt (sum_list (map (\<lambda>a. a * a) v))"

text \<open>\<^verbatim>\<open>PES.get_projected_forces\<close>: \<^verbatim>\<open>-((Ufree @ Ufree.T) @ g).reshape((-1, 3))\<close>.\<close>

definition PES_get_projected_forces :: "env \<Rightarrow> pes \<Rightarrow> (pos3 list, pes) res" where
  "PES_get_projected_forces E s =
     (case PES_get_g E s of
        (Inl e, s1) \<Rightarrow> (Inl e, s1)
      | (Inr g, s1) \<Rightarrow>
         (case PES_get_Ufree E s1 of
            (Inl e, s2) \<Rightarrow> (Inl e, s2)
          | (Inr (Mat U), s2) \<Rightarrow>
             (case matmul_T U U of
                Inl e \<Rightarrow> (Inl e, s2)
              | Inr P \<Rightarrow>
                 (case matvec P g of
                    Inl e \<Rightarrow> (Inl e, s2)
                  | Inr v \<Rightarrow>
                     (case reshape3 v of
                        Inl e \<Rightarrow> (Inl e, s2)
                      | Inr ps \<Rightarrow> (Inr (map (\<lambda>(a, b, c). (- a, - b, - c)) ps), s2))))
          | (Inr PyNone, s2) \<Rightarrow> (Inl AttributeError, s2)
          | (Inr _, s2) \<Rightarrow> (Inl NumpyError, s2)))"

text \<open>\<^verbatim>\<open>PES.get_res\<close> and \<^verbatim>\<open>PES.converged\<close>; \<^verbatim>\<open>.max()\<close> of an empty array raises.\<close>

definition PES_get_res :: "env \<Rightarrow> pes \<Rightarrow> vec" where
  "PES_get_res E s = cons_residual E (positions s)"

definition PES_converged :: "env \<Rightarrow> real \<Rightarrow> real \<Rightarrow> pes \<Rightarrow> (bool \<times> real \<times> real, pes) res" where
  "PES_converged E fmax cmax s =
     (case PES_get_projected_forces E s of
        (Inl e, s1) \<Rightarrow> (Inl e, s1)
      | (Inr pf, s1) \<Rightarrow>
         (case map norm3 pf of
            [] \<Rightarrow> (Inl NumpyError, s1)
          | n # ns \<Rightarrow>
             (let fmax1 = fold max ns n;
                  cmax1 = l2norm (PES_get_res E s1);
                  conv = (fmax1 < fmax \<and> cmax1 < cmax)
              in (Inr (conv, fmax1, cmax1), s1))))"

section \<open>InternalPES\<close>

text \<open>
  The internal-coordinate generator and the ODE integrator are external. An internal
  coordinate set \<open>'i\<close> is evaluated at the positions of the atoms and of the dummy atoms;
  \<open>find_all\<close> stands for \<^verbatim>\<open>copy\<close> followed by \<^verbatim>\<open>find_all_bonds\<close>, \<^verbatim>\<open>find_all_angles\<close> and
  \<^verbatim>\<open>find_all_dihedrals\<close> and returns the new set with the positions of its dummy atoms.

  The integrator \<^verbatim>\<open>LSODA\<close> has a state \<open>'o\<close> with the attributes \<^verbatim>\<open>status\<close>, \<^verbatim>\<open>t\<close>, \<^verbatim>\<open>y\<close> and
  \<^verbatim>\<open>nfev\<close>. Its constructor and its \<^verbatim>\<open>step\<close> call the right-hand side \<^verbatim>\<open>_q_ode\<close>; each returns
  the new integrator state and the list of the vectors \<open>y\<close> at which it called \<^verbatim>\<open>_q_ode\<close>, in
  order. The derivative \<^verbatim>\<open>_q_ode\<close> returns is consumed by the integrator; what the object
  keeps of a call is the positions it wrote.
\<close>

datatype ode_status = Running | Finished | Failed

record bad_internals =
  bad_bonds :: "(nat \<times> nat) list"
  bad_angles :: "(nat \<times> nat \<times> nat) list"

record ('i, 'o) ienv =
  int_calc :: "'i \<Rightarrow> pos3 list \<Rightarrow> pos3 list \<Rightarrow> vec"
  int_jacobian :: "'i \<Rightarrow> pos3 list \<Rightarrow> pos3 list \<Rightarrow> mat"
  int_guess_hessian :: "'i \<Rightarrow> pos3 list \<Rightarrow> pos3 list \<Rightarrow> mat"
  int_ndof :: "'i \<Rightarrow> nat"
  check_for_bad_internals :: "'i \<Rightarrow> pos3 list \<Rightarrow> pos3 list \<Rightarrow> bad_internals option"
  find_all :: "'i \<Rightarrow> pos3 list \<Rightarrow> 'i \<times> pos3 list"
  pinv :: "mat \<Rightarrow> mat"
  lsoda_init :: "real \<Rightarrow> vec \<Rightarrow> 'o \<times> vec list"
  lsoda_step :: "'o \<Rightarrow> 'o \<times> vec list"
  lsoda_status :: "'o \<Rightarrow> ode_status"
  lsoda_t :: "'o \<Rightarrow> real"
  lsoda_y :: "'o \<Rightarrow> vec"
  lsoda_nfev :: "'o \<Rightarrow> nat"

text \<open>The fields \<^verbatim>\<open>InternalPES\<close> adds: \<^verbatim>\<open>self.dummies.positions\<close>, \<^verbatim>\<open>self.int\<close>,
  \<^verbatim>\<open>self.int_orig\<close> and \<^verbatim>\<open>self.bad_int\<close>.\<close>

record 'i ipes = pes +
  dummies :: "pos3 list"
  ints :: 'i
  int_orig :: 'i
  bad_int :: "bad_internals option"

definition dpos :: "'i ipes \<Rightarrow> pos3 list" where
  "dpos s = dummies s"

text \<open>\<^verbatim>\<open>InternalPES.get_x\<close>.\<close>

definition IPES_get_x :: "('i, 'o) ienv \<Rightarrow> 'i ipes \<Rightarrow> vec" where
  "IPES_get_x I s = int_calc I (ints s) (positions s) (dummies s)"

text \<open>
  \<^verbatim>\<open>InternalPES.__init__\<close>, in two parts: up to the second \<^verbatim>\<open>set_H\<close> (line 374), and the two
  assignments after it. \<^verbatim>\<open>PES.__init__\<close> is called with \<^verbatim>\<open>H0=None\<close>.
\<close>

definition guess_H0 :: "('i, 'o) ienv \<Rightarrow> 'i ipes \<Rightarrow> error + mat" where
  "guess_H0 I s =
     (let B = int_jacobian I (ints s) (positions s) (dummies s) in
      case matmul B (pinv I B) of
        Inl e \<Rightarrow> Inl e
      | Inr P \<Rightarrow>
         (case matmul P (int_guess_hessian I (ints s) (positions s) (dummies s)) of
            Inl e \<Rightarrow> Inl e
          | Inr PG \<Rightarrow> matmul PG P))"

definition IPES_init_install ::
  "('i, 'o) ienv \<Rightarrow> pos3 list \<Rightarrow> 'i \<Rightarrow> mat option \<Rightarrow> error + 'i ipes" where
  "IPES_init_install I atoms internals H0 =
     (case find_all I internals atoms of (new_int, dum) \<Rightarrow>
        (let s0 = pes.extend (PES_init atoms None)
                    \<lparr>dummies = dum, ints = new_int, int_orig = internals, bad_int = None\<rparr>;
             s1 = s0\<lparr>dim := length (IPES_get_x I s0)\<rparr>;
             s2 = s1\<lparr>ncart := int_ndof I (ints s1)\<rparr>
         in (case H0 of
               None \<Rightarrow>
                 (case guess_H0 I s2 of
                    Inl e \<Rightarrow> Inl e
                  | Inr H0' \<Rightarrow> Inr (set_H (Some H0') True (set_H (Some H0') False s2)))
             | Some h \<Rightarrow> Inr (set_H (Some h) True s2))))"

definition IPES_init ::
  "('i, 'o) ienv \<Rightarrow> pos3 list \<Rightarrow> 'i \<Rightarrow> mat option \<Rightarrow> error + 'i ipes" where
  "IPES_init I atoms internals H0 =
     (case IPES_init_install I atoms internals H0 of
        Inl e \<Rightarrow> Inl e
      | Inr s \<Rightarrow> Inr (s\<lparr>H := (H s)\<lparr>initialized := False\<rparr>, bad_int := None\<rparr>))"

text \<open>
  What a call of \<^verbatim>\<open>_q_ode(t, y)\<close> leaves in the object: the first row of \<open>y\<close> reshaped to
  \<^verbatim>\<open>(3, nxa + nxd)\<close>, written to the positions of the atoms and of the dummy atoms.
\<close>

definition q_ode_effect :: "vec \<Rightarrow> 'i ipes \<Rightarrow> (unit, 'i ipes) res" where
  "q_ode_effect y s =
     (let nxa = 3 * length (positions s); nxd = 3 * length (dummies s) in
      if length y \<noteq> 3 * (nxa + nxd) then (Inl NumpyError, s)
      else
        let x = take (nxa + nxd) y in
        case reshape3 (take nxa x) of
          Inl e \<Rightarrow> (Inl e, s)
        | Inr pa \<Rightarrow>
           (case reshape3 (drop nxa x) of
              Inl e \<Rightarrow> (Inl e, s\<lparr>positions := pa\<rparr>)
            | Inr pd \<Rightarrow> (Inr (), s\<lparr>positions := pa, dummies := pd\<rparr>)))"

fun q_ode_calls :: "vec list \<Rightarrow> 'i ipes \<Rightarrow> (unit, 'i ipes) res" where
  "q_ode_calls [] s = (Inr (), s)"
| "q_ode_calls (y # ys) s =
     (case q_ode_effect y s of
        (Inl e, s1) \<Rightarrow> (Inl e, s1)
      | (Inr _, s1) \<Rightarrow> q_ode_calls ys s1)"

text \<open>
  The \<^verbatim>\<open>while\<close> loop of \<^verbatim>\<open>InternalPES.set_x\<close> (lines 393 to 404) with its local variables
  \<open>y\<close> (unbound before the first step) and \<open>t0\<close>. Nothing in the module bounds the number of
  steps when \<^verbatim>\<open>nfev\<close> does not grow, so the loop takes fuel: \<open>None\<close> is a loop still running
  when the fuel is spent. The ways the loop is left: the \<^verbatim>\<open>while\<close> test fails, the \<^verbatim>\<open>break\<close>,
  the \<^verbatim>\<open>raise\<close> of line 403, an exception inside a right-hand-side call.
\<close>

datatype loop_exit = ExitWhile | ExitBreak | ExitTooLong | ExitCallback error

fun ode_loop ::
  "('i, 'o) ienv \<Rightarrow> nat \<Rightarrow> 'o \<Rightarrow> vec option \<Rightarrow> real \<Rightarrow> 'i ipes
     \<Rightarrow> (loop_exit \<times> 'o \<times> vec option \<times> real \<times> 'i ipes) option" where
  "ode_loop I 0 ode y t0 s =
     (if lsoda_status I ode = Running then None else Some (ExitWhile, ode, y, t0, s))"
| "ode_loop I (Suc m) ode y t0 s =
     (if lsoda_status I ode = Running then
        (case lsoda_step I ode of (ode1, calls) \<Rightarrow>
           (case q_ode_calls calls s of
              (Inl e, s1) \<Rightarrow> Some (ExitCallback e, ode1, y, t0, s1)
            | (Inr _, s1) \<Rightarrow>
               (let y1 = Some (lsoda_y I ode1);
                    t1 = lsoda_t I ode1;
                    s2 = s1\<lparr>bad_int :=
                              check_for_bad_internals I (ints s1) (positions s1) (dummies s1)\<rparr>
                in if bad_int s2 \<noteq> None then
                     Some (ExitBreak, ode1, y1, t1,
                           s2\<lparr>log := log s2 @ [''Bad internals found!'']\<rparr>)
                   else if lsoda_nfev I ode1 > 1000 then
                     Some (ExitTooLong, ode1, y1, t1, s2)
                   else ode_loop I m ode1 y1 t1 s2)))
      else Some (ExitWhile, ode, y, t0, s))"

text \<open>Lines 406 to 418: what \<^verbatim>\<open>set_x\<close> does once the loop is left.\<close>

definition IPES_set_x_finish ::
  "('i, 'o) ienv \<Rightarrow> vec \<Rightarrow> loop_exit \<Rightarrow> 'o \<Rightarrow> vec option \<Rightarrow> real \<Rightarrow> 'i ipes
     \<Rightarrow> (vec \<times> vec \<times> vec, 'i ipes) res" where
  "IPES_set_x_finish I dx ex ode y t0 s =
     (case ex of
        ExitCallback e \<Rightarrow> (Inl e, s)
      | ExitTooLong \<Rightarrow>
          (Inl (RuntimeError ''Geometry update ODE is taking too long to converge!''), s)
      | _ \<Rightarrow>
         if lsoda_status I ode = Failed then
           (Inl (RuntimeError ''Geometry update ODE failed to converge!''), s)
         else
           (case y of
              None \<Rightarrow> (Inl UnboundLocalError, s)
            | Some y \<Rightarrow>
               (let nxa = 3 * length (positions s); nxd = 3 * length (dummies s);
                    n = nxa + nxd
                in if length y \<noteq> 3 * n then (Inl NumpyError, s)
                   else
                     let y0 = take n y; y1 = take n (drop n y); y2 = drop (2 * n) y in
                     case reshape3 (take nxa y0) of
                       Inl e \<Rightarrow> (Inl e, s)
                     | Inr pa \<Rightarrow>
                        (let s1 = s\<lparr>positions := pa\<rparr> in
                         case reshape3 (drop nxa y0) of
                           Inl e \<Rightarrow> (Inl e, s1)
                         | Inr pd \<Rightarrow>
                            (let s2 = s1\<lparr>dummies := pd\<rparr>;
                                 B = int_jacobian I (ints s2) (positions s2) (dummies s2)
                             in case matvec (scale t0 B) y1 of
                                  Inl e \<Rightarrow> (Inl e, s2)
                                | Inr dx_final \<Rightarrow>
                                   (case matvec B y2 of
                                      Inl e \<Rightarrow> (Inl e, s2)
                                    | Inr g_final \<Rightarrow>
                                       (Inr (map ((*) t0) dx, dx_final, g_final), s2)))))))"

text \<open>
  \<^verbatim>\<open>InternalPES.set_x\<close>, lines 384 to 391: the displacement, the initial vector and the
  integrator. \<^verbatim>\<open>Binv @ v\<close> raises unless \<open>v\<close> is an array of the right length; in particular
  it raises on the \<^verbatim>\<open>None\<close> the cache holds before the first evaluation.
\<close>

definition IPES_set_x_start ::
  "('i, 'o) ienv \<Rightarrow> vec \<Rightarrow> 'i ipes \<Rightarrow> (vec \<times> 'o, 'i ipes) res" where
  "IPES_set_x_start I target s =
     (case np_sub target (IPES_get_x I s) of
        Inl e \<Rightarrow> (Inl e, s)
      | Inr dx \<Rightarrow>
         (let Binv = pinv I (int_jacobian I (ints s) (positions s) (dummies s)) in
          case matvec Binv dx of
            Inl e \<Rightarrow> (Inl e, s)
          | Inr a \<Rightarrow>
             (case (case dict_get (curr s) ''g'' (Vec (replicate (length dx) 0)) of
                      Vec g \<Rightarrow> matvec Binv g
                    | _ \<Rightarrow> Inl NumpyError) of
                Inl e \<Rightarrow> (Inl e, s)
              | Inr b \<Rightarrow>
                 (let y0 = ravel (apos s) @ ravel (dpos s) @ a @ b in
                  case lsoda_init I 0 y0 of (ode, calls) \<Rightarrow>
                    (case q_ode_calls calls s of
                       (Inl e, s1) \<Rightarrow> (Inl e, s1)
                     | (Inr _, s1) \<Rightarrow> (Inr (dx, ode), s1))))))"

text \<open>\<^verbatim>\<open>InternalPES.set_x\<close> as a whole.\<close>

definition IPES_set_x ::
  "('i, 'o) ienv \<Rightarrow> nat \<Rightarrow> vec \<Rightarrow> 'i ipes \<Rightarrow> (vec \<times> vec \<times> vec, 'i ipes) res option" where
  "IPES_set_x I fuel target s =
     (case IPES_set_x_start I target s of
        (Inl e, s1) \<Rightarrow> Some (Inl e, s1)
      | (Inr (dx, ode), s1) \<Rightarrow>
         (case ode_loop I fuel ode None 0 s1 of
            None \<Rightarrow> None
          | Some (ex, ode1, y, t0, s2) \<Rightarrow> Some (IPES_set_x_finish I dx ex ode1 y t0 s2)))"

section \<open>Reachable states of a Cartesian PES\<close>

text \<open>
  The states a \<^verbatim>\<open>PES\<close> object goes through: the constructor, then any sequence of the
  methods that write to the object. \<^verbatim>\<open>get_f\<close>, \<^verbatim>\<open>get_g\<close>, the basis getters, \<^verbatim>\<open>converged\<close>,
  \<^verbatim>\<open>kick\<close> and \<^verbatim>\<open>diag\<close> change the object through these methods and through the Hessian
  only. A method that raises leaves a state that can be used again.
\<close>

inductive reachable :: "env \<Rightarrow> pes \<Rightarrow> bool" for E :: env where
  r_init: "reachable E (PES_init atoms H0)"
| r_set_x: "reachable E s \<Longrightarrow> reachable E (snd (PES_set_x target s))"
| r_update: "reachable E s \<Longrightarrow> reachable E (snd (PES_update E feval s))"
| r_eval: "reachable E s \<Longrightarrow> reachable E (snd (PES_eval E s))"
| r_save: "reachable E s \<Longrightarrow> reachable E (PES_save s)"
| r_restore: "reachable E s \<Longrightarrow> reachable E (snd (PES_restore s))"
| r_calc_eg: "reachable E s \<Longrightarrow> reachable E (snd (PES_calc_eg E x s))"
| r_hessian: "reachable E s \<Longrightarrow> reachable E (s\<lparr>H := h, first_diag := b\<rparr>)"

code_pred reachable .

text \<open>The two shapes of the current cache entry: as constructed, or filled by an
  evaluation.\<close>

definition cache_shape :: "pes \<Rightarrow> bool" where
  "cache_shape s =
     (case (curr s ''x'', curr s ''f'', curr s ''g'') of
        (Some PyNone, Some PyNone, Some PyNone) \<Rightarrow> True
      | (Some (Vec x), Some (Num f), Some (Vec g)) \<Rightarrow> True
      | _ \<Rightarrow> False)"

text \<open>
  The cache entry \<open>c\<close> is what \<^verbatim>\<open>_update\<close> stores after an evaluation with the structure
  at the positions \<open>ps\<close>: the position vector, the evaluator's energy, the negated
  ravelled forces, the four matrices of \<^verbatim>\<open>_calc_basis\<close> and the multipliers.
\<close>

definition evaluated_at :: "env \<Rightarrow> (string \<rightharpoonup> pyval) \<Rightarrow> pos3 list \<Rightarrow> bool" where
  "evaluated_at E c ps =
     (case atoms_energy E ps of
        Inl e \<Rightarrow> False
      | Inr f \<Rightarrow>
         (case atoms_forces E ps of
            Inl e \<Rightarrow> False
          | Inr fs \<Rightarrow>
             (case calc_basis E ps of (drdx, Ucons, Unred, Ufree) \<Rightarrow>
                c ''x'' = Some (Vec (ravel ps)) \<and>
                c ''f'' = Some (Num f) \<and>
                c ''g'' = Some (Vec (map uminus (ravel fs))) \<and>
                c ''drdx'' = Some (Mat drdx) \<and> c ''Ucons'' = Some (Mat Ucons) \<and>
                c ''Unred'' = Some (Mat Unred) \<and> c ''Ufree'' = Some (Mat Ufree) \<and>
                c ''L'' = Some (Vec (lstsq E (transpose drdx) (map uminus (ravel fs)))))))"

text \<open>The cache holds an energy for the position the structure is at.\<close>

definition cache_has_energy :: "pes \<Rightarrow> bool" where
  "cache_has_energy s =
     (curr s ''x'' = Some (Vec (PES_get_x s)) \<and>
      (case curr s ''f'' of Some (Num f) \<Rightarrow> True | _ \<Rightarrow> False))"

text \<open>The position differs from the one the cache was filled at (or the cache is empty).\<close>

definition position_changed :: "pes \<Rightarrow> bool" where
  "position_changed s = (curr s ''x'' \<noteq> Some (Vec (PES_get_x s)))"

section \<open>Concrete collaborators\<close>

text \<open>
  An evaluator that returns the energy 0 and zero forces, and one that raises at every
  point; no constraints; an identity basis for one atom.
\<close>

definition eye3 :: mat where
  "eye3 = [[1, 0, 0], [0, 1, 0], [0, 0, 1]]"

definition env_flat :: env where
  "env_flat = \<lparr>atoms_energy = (\<lambda>p. Inr 0),
               atoms_forces = (\<lambda>p. Inr (map (\<lambda>q. (0, 0, 0)) p)),
               cons_residual = (\<lambda>p. []),
               cons_jacobian = (\<lambda>p. []),
               calc_basis = (\<lambda>p. ([], [], eye3, eye3)),
               lstsq = (\<lambda>A b. [])\<rparr>"

definition env_failing :: env where
  "env_failing = env_flat\<lparr>atoms_energy := (\<lambda>p. Inl CalcError)\<rparr>"

text \<open>
  One atom in a harmonic well, \<open>E = (x\<^sup>2 + y\<^sup>2 + z\<^sup>2) / 2\<close> with the force \<open>- (x, y, z)\<close>,
  held at height zero: the residual is \<open>z\<close>, its Jacobian \<open>[0, 0, 1]\<close>, the constrained
  direction is the third axis and the free directions are the first two. The least squares
  solver is exact for a matrix with orthonormal columns.
\<close>

definition env_spring :: env where
  "env_spring =
     \<lparr>atoms_energy = (\<lambda>p. Inr (sum_list (map (\<lambda>a. a * a) (ravel p)) / 2)),
      atoms_forces = (\<lambda>p. Inr (map (\<lambda>(a, b, c). (- a, - b, - c)) p)),
      cons_residual = (\<lambda>p. map (\<lambda>(a, b, c). c) p),
      cons_jacobian = (\<lambda>p. [[0, 0, 1]]),
      calc_basis = (\<lambda>p. ([[0, 0, 1]], [[0], [0], [1]], eye3, [[1, 0], [0, 1], [0, 0]])),
      lstsq = (\<lambda>A b. map (\<lambda>col. dot col b) (transpose A))\<rparr>"

text \<open>
  Three states of a PES in that well: evaluated with the atom at the origin, then moved
  to \<open>(1, 2, 3)\<close> by \<^verbatim>\<open>set_x\<close>, then evaluated there. The fourth is the third with the energy
  taken out of the cache by hand, the state in which \<^verbatim>\<open>_update\<close> fills the entry in place.
\<close>

definition spring_A :: pes where
  "spring_A = snd (PES_update env_spring True (PES_init [(0, 0, 0)] None))"

definition spring_B :: pes where
  "spring_B = snd (PES_set_x [1, 2, 3] spring_A)"

definition spring_C :: pes where
  "spring_C = snd (PES_update env_spring True spring_B)"

definition spring_D :: pes where
  "spring_D = spring_C\<lparr>curr := (curr spring_C)(''f'' \<mapsto> PyNone)\<rparr>"

text \<open>The same well with the atom constructed at \<open>(3, 4, 2)\<close>, after one evaluation.\<close>

definition spring_E :: pes where
  "spring_E = snd (PES_update env_spring True (PES_init [(3, 4, 2)] None))"

text \<open>
  Internal coordinates that are the Cartesian coordinates of one atom, without dummy
  atoms, flagged as bad once the atom has moved at least \<open>1/2\<close> along the first axis. The
  integrator state is the step count and the vector \<open>y\<close>; a step advances \<open>t\<close> and the
  first row of \<open>y\<close> by half of the second row, and calls the right-hand side at the new
  \<open>y\<close>. It finishes after two steps and counts \<open>nf\<close> evaluations for each step.
\<close>

definition demo_step :: "nat \<times> vec \<Rightarrow> (nat \<times> vec) \<times> vec list" where
  "demo_step o1 =
     (case o1 of (k, y) \<Rightarrow>
        let y' = map2 (\<lambda>a b. a + b / 2) (take 3 y) (take 3 (drop 3 y)) @ drop 3 y
        in ((Suc k, y'), [y']))"

definition demo_ienv :: "nat \<Rightarrow> (unit, nat \<times> vec) ienv" where
  "demo_ienv nf =
     \<lparr>int_calc = (\<lambda>i a d. ravel a),
      int_jacobian = (\<lambda>i a d. eye3),
      int_guess_hessian = (\<lambda>i a d. eye3),
      int_ndof = (\<lambda>i. 3),
      check_for_bad_internals =
        (\<lambda>i a d. case a of
                    (x, _) # _ \<Rightarrow>
                      if 1 / 2 \<le> x then Some \<lparr>bad_bonds = [(0, 1)], bad_angles = []\<rparr>
                      else None
                  | [] \<Rightarrow> None),
      find_all = (\<lambda>i a. (i, [])),
      pinv = (\<lambda>B. B),
      lsoda_init = (\<lambda>t y. ((0, y), [])),
      lsoda_step = demo_step,
      lsoda_status = (\<lambda>o1. if fst o1 < 2 then Running else Finished),
      lsoda_t = (\<lambda>o1. real (fst o1) / 2),
      lsoda_y = snd,
      lsoda_nfev = (\<lambda>o1. nf * fst o1)\<rparr>"

text \<open>An \<^verbatim>\<open>InternalPES\<close> for one atom at the origin whose cache holds the gradient
  \<open>[2, 0, 0]\<close>.\<close>

definition demo_ipes :: "unit ipes" where
  "demo_ipes =
     pes.extend
       ((PES_init [(0, 0, 0)] None)
          \<lparr>curr := [''x'' \<mapsto> Vec [0, 0, 0], ''f'' \<mapsto> Num 0, ''g'' \<mapsto> Vec [2, 0, 0]]\<rparr>)
       \<lparr>dummies = [], ints = (), int_orig = (), bad_int = None\<rparr>"

section \<open>Basic facts about the Cartesian PES\<close>

lemma length_ravel: "length (ravel ps) = 3 * length ps"
  by (induction ps rule: ravel.induct) simp_all

lemma reshape3_ravel: "reshape3 (ravel ps) = Inr ps"
  by (induction ps rule: ravel.induct) simp_all

lemma ravel_reshape3: "reshape3 v = Inr ps \<Longrightarrow> ravel ps = v"
  by (induction v arbitrary: ps rule: reshape3.induct) (auto split: sum.splits)

lemma reshape3_total: "length v = 3 * n \<Longrightarrow> \<exists>ps. reshape3 v = Inr ps \<and> length ps = n"
proof (induction n arbitrary: v)
  case 0
  then show ?case by simp
next
  case (Suc n)
  then obtain a b c r where v: "v = a # b # c # r"
    by (cases v rule: reshape3.cases) auto
  with Suc.prems have "length r = 3 * n" by simp
  from Suc.IH [OF this] v show ?case by auto
qed

lemma reshape3_length: "reshape3 v = Inr ps \<Longrightarrow> length v = 3 * length ps"
  using ravel_reshape3 length_ravel by metis

lemma PES_eval_frame:
  "PES_eval E s = (r, s1) \<Longrightarrow>
     s1 = s\<lparr>neval := neval s + 1\<rparr>"
  by (auto simp: PES_eval_def Let_def split: sum.splits)

lemma PES_set_x_ok:
  "PES_set_x x s = (Inr v, s1) \<Longrightarrow>
     length x = 3 * length (positions s) \<and> s1 = s\<lparr>positions := projr (reshape3 x)\<rparr> \<and> PES_get_x s1 = x"
  apply (auto simp: PES_set_x_def np_sub_def PES_get_x_def apos_def length_ravel ravel_reshape3
      split: sum.splits if_splits dest: reshape3_length)
  done

lemma reshape3_err: "reshape3 v = Inl e \<Longrightarrow> e = NumpyError"
  by (induction v rule: reshape3.induct) (auto split: sum.splits)

lemma PES_set_x_err:
  assumes "PES_set_x x s = (Inl e, s1)"
  shows "s1 = s \<and> e = NumpyError \<and> length x \<noteq> 3 * length (positions s)"
proof (cases "np_sub x (PES_get_x s)")
  case (Inl a)
  then show ?thesis using assms
    by (auto simp: PES_set_x_def np_sub_def PES_get_x_def apos_def length_ravel split: if_splits)
next
  case (Inr d)
  with assms have r: "reshape3 x = Inl e" and "s1 = s"
    by (auto simp: PES_set_x_def split: sum.splits)
  moreover have "length x \<noteq> 3 * length (positions s)"
    using r reshape3_total [of x "length (positions s)"] by auto
  ultimately show ?thesis using reshape3_err by blast
qed

lemma PES_restore_saved:
  "sp_apos s = Some a \<Longrightarrow> sp_dpos s = None \<Longrightarrow> PES_restore s = (Inr (), s\<lparr>positions := a\<rparr>)"
  by (simp add: PES_restore_def)

section \<open>Facts about the cache update\<close>

lemma ufb_new:
  assumes "update_from_basis E True feval x s = (Inr b, s1)"
  shows "b \<and> neval s1 = neval s + 1 \<and> positions s1 = positions s \<and> last s1 = curr s
         \<and> curr s1 ''x'' = Some (Vec x)
         \<and> (\<exists>f. curr s1 ''f'' = Some (Num f)) \<and> (\<exists>g. curr s1 ''g'' = Some (Vec g))
         \<and> log s1 = (if feval then log s else log s @ [''Force change feval''])"
  using assms
  by (auto simp: update_from_basis_def update_store_def PES_eval_def Let_def
      split: sum.splits prod.splits if_splits)

lemma ufb_inplace:
  assumes "update_from_basis E False True x s = (Inr b, s1)"
  shows "b \<and> neval s1 = neval s + 1 \<and> positions s1 = positions s \<and> last s1 = last s
         \<and> curr s1 ''x'' = curr s ''x''
         \<and> (\<exists>f. curr s1 ''f'' = Some (Num f)) \<and> (\<exists>g. curr s1 ''g'' = Some (Vec g))
         \<and> log s1 = log s"
  using assms
  by (auto simp: update_from_basis_def update_store_def PES_eval_def Let_def
      split: sum.splits prod.splits if_splits)

lemma ufb_err:
  assumes "update_from_basis E np feval x s = (Inl e, s1)"
  shows "curr s1 = curr s \<and> last s1 = last s \<and> positions s1 = positions s"
  using assms
  by (auto simp: update_from_basis_def update_store_def PES_eval_def Let_def
      split: sum.splits prod.splits if_splits)

lemma np_all_eq_iff: "(cx \<noteq> PyNone \<and> np_all_eq x cx) = (cx = Vec x)"
  by (cases cx) auto

text \<open>The three ways through \<^verbatim>\<open>_update\<close>.\<close>

lemma PES_update_cases:
  assumes "PES_update E feval s = (Inr b, s1)"
  obtains
    (same) "curr s ''x'' = Some (Vec (PES_get_x s))" "\<not> b" "s1 = s"
      "feval \<longrightarrow> (\<exists>v. curr s ''f'' = Some v \<and> v \<noteq> PyNone)"
  | (fill) "curr s ''x'' = Some (Vec (PES_get_x s))" "feval" "curr s ''f'' = Some PyNone"
      "update_from_basis E False True (PES_get_x s) s = (Inr b, s1)"
  | (new) "\<exists>v. curr s ''x'' = Some v \<and> v \<noteq> Vec (PES_get_x s)"
      "update_from_basis E True feval (PES_get_x s) s = (Inr b, s1)"
  using assms
  by (auto simp: PES_update_def Let_def getitem_def np_all_eq_iff
      split: option.splits if_splits)

lemma PES_update_again:
  assumes "PES_update E feval s = (Inr b, s1)"
  shows "PES_update E feval s1 = (Inr False, s1)"
  using assms
proof (cases rule: PES_update_cases)
  case same
  then show ?thesis
    by (auto simp: PES_update_def Let_def getitem_def)
next
  case fill
  then show ?thesis using ufb_inplace [OF fill(4)]
    by (auto simp: PES_update_def Let_def getitem_def PES_get_x_def apos_def)
next
  case new
  then show ?thesis using ufb_new [OF new(2)]
    by (auto simp: PES_update_def Let_def getitem_def PES_get_x_def apos_def)
qed

section \<open>The shape of the cache in reachable states\<close>

lemma PES_update_err:
  assumes "PES_update E feval s = (Inl e, s1)"
  shows "curr s1 = curr s \<and> last s1 = last s \<and> positions s1 = positions s"
  using assms ufb_err
  by (fastforce simp: PES_update_def Let_def getitem_def split: option.splits if_splits)

lemma PES_set_x_curr: "curr (snd (PES_set_x x s)) = curr s"
  by (simp add: PES_set_x_def split: sum.splits)

lemma PES_eval_curr: "curr (snd (PES_eval E s)) = curr s"
  by (simp add: PES_eval_def Let_def split: sum.splits)

lemma PES_restore_curr: "curr (snd (PES_restore s)) = curr s"
  by (simp add: PES_restore_def split: option.splits)

lemma PES_calc_eg_curr: "curr (snd (PES_calc_eg E x s)) = curr s"
proof -
  have a: "curr (snd (PES_set_x x (PES_save s))) = curr s"
    by (simp add: PES_set_x_curr PES_save_def)
  show ?thesis
    using a PES_eval_curr [of E "snd (PES_set_x x (PES_save s))"]
      PES_restore_curr [of "snd (PES_eval E (snd (PES_set_x x (PES_save s))))"]
    by (auto simp: PES_calc_eg_def Let_def split: prod.splits sum.splits)
qed

lemma PES_init_curr: "curr (PES_init atoms H0) = empty_cache"
  by (cases H0) (simp_all add: PES_init_def set_H_def Let_def)

lemma cache_shape_iff:
  "cache_shape s \<longleftrightarrow>
     ((curr s ''x'' = Some PyNone \<and> curr s ''f'' = Some PyNone \<and> curr s ''g'' = Some PyNone) \<or>
      (\<exists>x f g. curr s ''x'' = Some (Vec x) \<and> curr s ''f'' = Some (Num f)
               \<and> curr s ''g'' = Some (Vec g)))"
proof (cases "curr s ''x''")
  case None
  then show ?thesis by (simp add: cache_shape_def)
next
  case (Some vx)
  show ?thesis
  proof (cases "curr s ''f''")
    case None
    with Some show ?thesis by (cases vx) (simp_all add: cache_shape_def)
  next
    case (Some vf)
    show ?thesis
    proof (cases "curr s ''g''")
      case None
      with \<open>curr s ''x'' = Some vx\<close> \<open>curr s ''f'' = Some vf\<close> show ?thesis
        by (cases vx; cases vf) (simp_all add: cache_shape_def)
    next
      case (Some vg)
      with \<open>curr s ''x'' = Some vx\<close> \<open>curr s ''f'' = Some vf\<close> show ?thesis
        by (cases vx; cases vf; cases vg) (simp_all add: cache_shape_def)
    qed
  qed
qed

lemma PES_update_shape:
  assumes "cache_shape s"
  shows "cache_shape (snd (PES_update E feval s))"
proof (cases "PES_update E feval s")
  case (Pair r s1)
  show ?thesis
  proof (cases r)
    case (Inl e)
    with Pair assms show ?thesis using PES_update_err [of E feval s e s1]
      by (simp add: cache_shape_iff)
  next
    case (Inr b)
    with Pair have u: "PES_update E feval s = (Inr b, s1)" by simp
    from u show ?thesis
    proof (cases rule: PES_update_cases)
      case same
      with Pair assms show ?thesis by simp
    next
      case fill
      with Pair show ?thesis using ufb_inplace [OF fill(4)] fill(1)
        by (auto simp: cache_shape_iff)
    next
      case new
      with Pair show ?thesis using ufb_new [OF new(2)]
        by (auto simp: cache_shape_iff)
    qed
  qed
qed

lemma reachable_cache_shape: "reachable E s \<Longrightarrow> cache_shape s"
proof (induction rule: reachable.induct)
  case (r_init atoms H0)
  show ?case
    by (simp add: cache_shape_iff PES_init_curr empty_cache_def)
next
  case (r_set_x s target)
  then show ?case by (simp add: cache_shape_iff PES_set_x_curr)
next
  case (r_update s feval)
  from r_update.IH show ?case by (rule PES_update_shape)
next
  case (r_eval s)
  then show ?case by (simp add: cache_shape_iff PES_eval_curr)
next
  case (r_save s)
  then show ?case by (simp add: cache_shape_iff PES_save_def)
next
  case (r_restore s)
  then show ?case by (simp add: cache_shape_iff PES_restore_curr)
next
  case (r_calc_eg s x)
  then show ?case by (simp add: cache_shape_iff PES_calc_eg_curr)
next
  case (r_hessian s h b)
  then show ?case by (simp add: cache_shape_iff)
qed

lemma fold_max_Max: "fold max ns (n::real) = Max (set (n # ns))"
  by (rule Max.set_eq_fold [symmetric])

section \<open>Facts about the integration loop\<close>

lemma q_ode_effect_frame:
  assumes "q_ode_effect y s = (r, s1)"
  shows "ints s1 = ints s \<and> bad_int s1 = bad_int s \<and> curr s1 = curr s
         \<and> (\<forall>e. r = Inl e \<longrightarrow> e = NumpyError)"
  using assms
  by (auto simp: q_ode_effect_def Let_def split: if_splits sum.splits dest: reshape3_err)

lemma q_ode_calls_frame:
  assumes "q_ode_calls ys s = (r, s1)"
  shows "ints s1 = ints s \<and> bad_int s1 = bad_int s \<and> curr s1 = curr s
         \<and> (\<forall>e. r = Inl e \<longrightarrow> e = NumpyError)"
  using assms
proof (induction ys arbitrary: s)
  case Nil
  then show ?case by auto
next
  case (Cons y ys)
  obtain r0 s0 where e: "q_ode_effect y s = (r0, s0)" by (cases "q_ode_effect y s")
  show ?case
  proof (cases r0)
    case (Inl err)
    with e Cons.prems show ?thesis using q_ode_effect_frame [OF e] by auto
  next
    case (Inr u)
    with e Cons.prems have "q_ode_calls ys s0 = (r, s1)" by simp
    from Cons.IH [OF this] q_ode_effect_frame [OF e] show ?thesis by simp
  qed
qed

lemma ode_loop_exit:
  assumes "ode_loop I n ode y t0 s = Some (ex, ode1, y1, t1, s2)"
  shows "ints s2 = ints s \<and> curr s2 = curr s \<and>
         (case ex of
            ExitWhile \<Rightarrow>
              lsoda_status I ode1 \<noteq> Running \<and>
              ((ode1 = ode \<and> y1 = y \<and> t1 = t0 \<and> s2 = s) \<or>
               (bad_int s2 = None \<and> lsoda_nfev I ode1 \<le> 1000 \<and>
                y1 = Some (lsoda_y I ode1) \<and> t1 = lsoda_t I ode1 \<and>
                bad_int s2 = check_for_bad_internals I (ints s2) (positions s2) (dummies s2)))
          | ExitBreak \<Rightarrow>
              bad_int s2 \<noteq> None \<and>
              y1 = Some (lsoda_y I ode1) \<and> t1 = lsoda_t I ode1 \<and>
              bad_int s2 = check_for_bad_internals I (ints s2) (positions s2) (dummies s2)
          | ExitTooLong \<Rightarrow>
              bad_int s2 = None \<and> 1000 < lsoda_nfev I ode1 \<and>
              y1 = Some (lsoda_y I ode1) \<and> t1 = lsoda_t I ode1 \<and>
              bad_int s2 = check_for_bad_internals I (ints s2) (positions s2) (dummies s2)
          | ExitCallback e \<Rightarrow> e = NumpyError)"
  using assms
proof (induction n arbitrary: ode y t0 s)
  case 0
  then show ?case by (auto split: if_splits)
next
  case (Suc m)
  show ?case
  proof (cases "lsoda_status I ode = Running")
    case False
    with Suc.prems show ?thesis by auto
  next
    case True
    obtain o1 calls where st: "lsoda_step I ode = (o1, calls)" by (cases "lsoda_step I ode")
    obtain rc sc where qc: "q_ode_calls calls s = (rc, sc)" by (cases "q_ode_calls calls s")
    note fr = q_ode_calls_frame [OF qc]
    show ?thesis
    proof (cases rc)
      case (Inl e)
      with True st qc Suc.prems fr show ?thesis by auto
    next
      case (Inr u)
      let ?bad = "check_for_bad_internals I (ints sc) (positions sc) (dummies sc)"
      let ?s2 = "sc\<lparr>bad_int := ?bad\<rparr>"
      show ?thesis
      proof (cases "?bad = None")
        case False
        with True st qc Inr Suc.prems fr show ?thesis by (auto simp: Let_def)
      next
        case nobad: True
        show ?thesis
        proof (cases "1000 < lsoda_nfev I o1")
          case True
          with \<open>lsoda_status I ode = Running\<close> st qc Inr nobad Suc.prems fr show ?thesis
            by (auto simp: Let_def)
        next
          case False
          with \<open>lsoda_status I ode = Running\<close> st qc Inr nobad Suc.prems
          have rec: "ode_loop I m o1 (Some (lsoda_y I o1)) (lsoda_t I o1) ?s2
                       = Some (ex, ode1, y1, t1, s2)"
            by (simp add: Let_def)
          from Suc.IH [OF rec] fr nobad False show ?thesis
            by (auto split: loop_exit.splits)
        qed
      qed
    qed
  qed
qed

lemma IPES_set_x_start_frame:
  assumes "IPES_set_x_start I target s = (r, s1)"
  shows "ints s1 = ints s \<and> bad_int s1 = bad_int s \<and> (\<forall>e. r = Inl e \<longrightarrow> e = NumpyError)
         \<and> (\<forall>dx ode. r = Inr (dx, ode) \<longrightarrow> np_sub target (IPES_get_x I s) = Inr dx)"
proof -
  have np: "\<And>a b e. np_sub a b = Inl e \<Longrightarrow> e = NumpyError"
    by (auto simp: np_sub_def split: if_splits)
  have mv: "\<And>M v e. matvec M v = Inl e \<Longrightarrow> e = NumpyError"
    by (auto simp: matvec_def split: if_splits)
  show ?thesis
    using assms
    by (auto simp: IPES_set_x_start_def Let_def
        split: sum.splits prod.splits pyval.splits
        dest!: np mv q_ode_calls_frame)
qed


lemma ode_loop_fuel:
  assumes incr: "\<And>o1. lsoda_nfev I o1 < lsoda_nfev I (fst (lsoda_step I o1))"
    and "1001 \<le> lsoda_nfev I ode + n"
    and "lsoda_nfev I ode \<le> 1000"
  shows "ode_loop I n ode y t0 s \<noteq> None"
  using assms(2,3)
proof (induction n arbitrary: ode y t0 s)
  case 0
  then show ?case by simp
next
  case (Suc m)
  obtain o1 calls where st: "lsoda_step I ode = (o1, calls)" by (cases "lsoda_step I ode")
  have lt: "lsoda_nfev I ode < lsoda_nfev I o1" using incr [of ode] st by simp
  show ?case
  proof (cases "lsoda_nfev I o1 \<le> 1000")
    case True
    then have "ode_loop I m o1 y' t' s' \<noteq> None" for y' t' s'
      using Suc.prems lt by (intro Suc.IH) auto
    then show ?thesis using st
      by (auto simp: Let_def split: prod.splits sum.splits)
  next
    case False
    then show ?thesis using st
      by (auto simp: Let_def split: prod.splits sum.splits)
  qed
qed

lemma ode_loop_terminates:
  assumes incr: "\<And>o1. lsoda_nfev I o1 < lsoda_nfev I (fst (lsoda_step I o1))"
    and "1002 \<le> n"
  shows "ode_loop I n ode y t0 s \<noteq> None"
proof -
  obtain m where n: "n = Suc m" and m: "1001 \<le> m" using assms(2) by (cases n) auto
  obtain o1 calls where st: "lsoda_step I ode = (o1, calls)" by (cases "lsoda_step I ode")
  show ?thesis
  proof (cases "lsoda_nfev I o1 \<le> 1000")
    case True
    then have "ode_loop I m o1 y' t' s' \<noteq> None" for y' t' s'
      using m by (intro ode_loop_fuel incr) auto
    then show ?thesis using st n
      by (auto simp: Let_def split: prod.splits sum.splits)
  next
    case False
    then show ?thesis using st n
      by (auto simp: Let_def split: prod.splits sum.splits)
  qed
qed

lemma IPES_set_x_terminates:
  assumes incr: "\<And>o1. lsoda_nfev I o1 < lsoda_nfev I (fst (lsoda_step I o1))"
    and "1002 \<le> fuel"
  shows "IPES_set_x I fuel target s \<noteq> None"
proof (cases "IPES_set_x_start I target s")
  case (Pair r s1)
  show ?thesis
  proof (cases r)
    case (Inl e)
    with Pair show ?thesis by (simp add: IPES_set_x_def)
  next
    case (Inr p)
    obtain dx ode where p: "p = (dx, ode)" by (cases p)
    have "ode_loop I fuel ode None 0 s1 \<noteq> None"
      using incr assms(2) by (rule ode_loop_terminates)
    with Pair Inr p show ?thesis
      by (auto simp: IPES_set_x_def)
  qed
qed

lemma dot_scale: "dot (map ((*) c) r) v = c * dot r v"
proof (induction r arbitrary: v)
  case Nil
  then show ?case by (simp add: dot_def)
next
  case (Cons a r)
  then show ?case by (cases v) (simp_all add: dot_def algebra_simps)
qed

lemma matvec_scale:
  "matvec (scale c M) v = (case matvec M v of Inl e \<Rightarrow> Inl e | Inr u \<Rightarrow> Inr (map ((*) c) u))"
  by (simp add: matvec_def scale_def list_all_iff dot_scale comp_def)

section \<open>Evaluating the concrete collaborators\<close>

lemma demo_ipes_simps:
  "positions demo_ipes = [(0, 0, 0)]" "dummies demo_ipes = []" "ints demo_ipes = ()"
  "curr demo_ipes = [''x'' \<mapsto> Vec [0, 0, 0], ''f'' \<mapsto> Num 0, ''g'' \<mapsto> Vec [2, 0, 0]]"
  "bad_int demo_ipes = None" "log demo_ipes = []"
  by (simp_all add: demo_ipes_def pes.defs PES_init_def set_H_def Let_def)

lemma demo_start:
  "IPES_set_x_start (demo_ienv nf) [1, 0, 0] demo_ipes
     = (Inr ([1, 0, 0], (0, [0, 0, 0, 1, 0, 0, 2, 0, 0])), demo_ipes)"
  by (simp add: IPES_set_x_start_def demo_ienv_def demo_ipes_simps IPES_get_x_def np_sub_def
      matvec_def eye3_def dot_def dict_get_def apos_def dpos_def Let_def)

lemma demo_loop:
  "ode_loop (demo_ienv nf) 5 (0, [0, 0, 0, 1, 0, 0, 2, 0, 0]) None 0 demo_ipes
     = Some (ExitBreak, (Suc 0, [1 / 2, 0, 0, 1, 0, 0, 2, 0, 0]),
             Some [1 / 2, 0, 0, 1, 0, 0, 2, 0, 0], 1 / 2,
             demo_ipes\<lparr>positions := [(1 / 2, 0, 0)], dummies := [],
                        bad_int := Some \<lparr>bad_bonds = [(0, Suc 0)], bad_angles = []\<rparr>,
                        log := [''Bad internals found!'']\<rparr>)"
  by (simp add: eval_nat_numeral demo_ienv_def demo_step_def demo_ipes_simps q_ode_effect_def
      Let_def)

lemma demo_fin:
  "IPES_set_x_finish (demo_ienv nf) [1, 0, 0] ExitBreak (Suc 0, [1 / 2, 0, 0, 1, 0, 0, 2, 0, 0])
       (Some [1 / 2, 0, 0, 1, 0, 0, 2, 0, 0]) (1 / 2)
       (demo_ipes\<lparr>positions := [(1 / 2, 0, 0)], dummies := [],
                  bad_int := Some \<lparr>bad_bonds = [(0, Suc 0)], bad_angles = []\<rparr>,
                  log := [''Bad internals found!'']\<rparr>)
     = (Inr ([1 / 2, 0, 0], [1 / 2, 0, 0], [2, 0, 0]),
        demo_ipes\<lparr>positions := [(1 / 2, 0, 0)], dummies := [],
                   bad_int := Some \<lparr>bad_bonds = [(0, Suc 0)], bad_angles = []\<rparr>,
                   log := [''Bad internals found!'']\<rparr>)"
  by (simp add: IPES_set_x_finish_def demo_ipes_simps
      demo_ienv_def matvec_def scale_def eye3_def dot_def Let_def)

lemma demo_finish:
  "IPES_set_x (demo_ienv nf) 5 [1, 0, 0] demo_ipes
     = Some (Inr ([1 / 2, 0, 0], [1 / 2, 0, 0], [2, 0, 0]),
             demo_ipes\<lparr>positions := [(1 / 2, 0, 0)], dummies := [],
                        bad_int := Some \<lparr>bad_bonds = [(0, Suc 0)], bad_angles = []\<rparr>,
                        log := [''Bad internals found!'']\<rparr>)"
  by (simp add: IPES_set_x_def demo_start demo_loop demo_fin)

lemma init1_simps:
  "positions (PES_init [(0, 0, 0)] None) = [(0, 0, 0)]"
  "neval (PES_init [(0, 0, 0)] None) = 0"
  "last (PES_init [(0, 0, 0)] None) = empty_cache"
  "log (PES_init [(0, 0, 0)] None) = []"
  "sp_apos (PES_init [(0, 0, 0)] None) = None"
  by (simp_all add: PES_init_def set_H_def Let_def)

lemma update_init1:
  "fst (PES_update env_flat feval (PES_init [(0, 0, 0)] None)) = Inr True"
  "positions (snd (PES_update env_flat feval (PES_init [(0, 0, 0)] None))) = [(0, 0, 0)]"
  "neval (snd (PES_update env_flat feval (PES_init [(0, 0, 0)] None))) = Suc 0"
  "curr (snd (PES_update env_flat feval (PES_init [(0, 0, 0)] None))) ''g'' = Some (Vec [0, 0, 0])"
  "curr (snd (PES_update env_flat feval (PES_init [(0, 0, 0)] None))) ''x'' = Some (Vec [0, 0, 0])"
  "last (snd (PES_update env_flat feval (PES_init [(0, 0, 0)] None))) = empty_cache"
  "log (snd (PES_update env_flat feval (PES_init [(0, 0, 0)] None)))
     = (if feval then [] else [''Force change feval''])"
  by (simp_all add: PES_update_def PES_get_x_def apos_def init1_simps PES_init_curr
      empty_cache_def getitem_def update_from_basis_def PES_eval_def env_flat_def
      update_store_def Let_def)

lemma update_init1_eq:
  "PES_update env_flat feval (PES_init [(0, 0, 0)] None)
     = (Inr True, snd (PES_update env_flat feval (PES_init [(0, 0, 0)] None)))"
  using update_init1(1) [of feval] by (simp add: prod_eq_iff)

section \<open>The cache in reachable states holds evaluations\<close>

lemma ravel_inj: "ravel ps = ravel qs \<Longrightarrow> ps = qs"
  by (metis reshape3_ravel sum.inject(2))

lemma evaluated_at_iff:
  "evaluated_at E c ps \<longleftrightarrow>
     (\<exists>f fs. atoms_energy E ps = Inr f \<and> atoms_forces E ps = Inr fs \<and>
        c ''x'' = Some (Vec (ravel ps)) \<and> c ''f'' = Some (Num f) \<and>
        c ''g'' = Some (Vec (map uminus (ravel fs))) \<and>
        c ''drdx'' = Some (Mat (fst (calc_basis E ps))) \<and>
        c ''Ucons'' = Some (Mat (fst (snd (calc_basis E ps)))) \<and>
        c ''Unred'' = Some (Mat (fst (snd (snd (calc_basis E ps))))) \<and>
        c ''Ufree'' = Some (Mat (snd (snd (snd (calc_basis E ps))))) \<and>
        c ''L'' = Some (Vec (lstsq E (transpose (fst (calc_basis E ps)))
                                (map uminus (ravel fs)))))"
proof (cases "atoms_energy E ps")
  case (Inl e)
  then show ?thesis by (simp add: evaluated_at_def)
next
  case f: (Inr f)
  show ?thesis
  proof (cases "atoms_forces E ps")
    case (Inl e)
    with f show ?thesis by (simp add: evaluated_at_def)
  next
    case (Inr fs)
    with f show ?thesis
      by (cases "calc_basis E ps") (simp add: evaluated_at_def)
  qed
qed

lemma ufb_new_evaluated:
  assumes "update_from_basis E True feval (ravel (positions s)) s = (Inr b, s1)"
  shows "evaluated_at E (curr s1) (positions s)"
proof -
  obtain f fs where e: "atoms_energy E (positions s) = Inr f"
    and fs: "atoms_forces E (positions s) = Inr fs"
    using assms
    by (auto simp: update_from_basis_def PES_eval_def Let_def split: sum.splits if_splits)
  obtain drdx Ucons Unred Ufree where cb: "calc_basis E (positions s) = (drdx, Ucons, Unred, Ufree)"
    by (cases "calc_basis E (positions s)")
  have "curr s1 = [''x'' \<mapsto> Vec (ravel (positions s)), ''f'' \<mapsto> Num f,
                   ''g'' \<mapsto> Vec (map uminus (ravel fs)), ''drdx'' \<mapsto> Mat drdx,
                   ''Ucons'' \<mapsto> Mat Ucons, ''Unred'' \<mapsto> Mat Unred, ''Ufree'' \<mapsto> Mat Ufree,
                   ''L'' \<mapsto> Vec (lstsq E (transpose drdx) (map uminus (ravel fs)))]"
    using assms e fs cb
    by (auto simp: update_from_basis_def PES_eval_def update_store_def Let_def split: if_splits)
  then show ?thesis using e fs cb by (simp add: evaluated_at_iff)
qed

text \<open>In a reachable state the cache is as constructed, or holds what an evaluation at
  some position stored.\<close>

lemma PES_update_evaluated_inv:
  assumes inv: "curr s ''x'' = Some PyNone \<or> (\<exists>ps. evaluated_at E (curr s) ps)"
  shows "curr (snd (PES_update E feval s)) ''x'' = Some PyNone
         \<or> (\<exists>ps. evaluated_at E (curr (snd (PES_update E feval s))) ps)"
proof (cases "PES_update E feval s")
  case (Pair r s1)
  show ?thesis
  proof (cases r)
    case (Inl e)
    with Pair inv show ?thesis using PES_update_err [of E feval s e s1] by simp
  next
    case (Inr b)
    with Pair have u: "PES_update E feval s = (Inr b, s1)" by simp
    from u show ?thesis
    proof (cases rule: PES_update_cases)
      case same
      with Pair inv show ?thesis by simp
    next
      case fill
      from fill(1) inv obtain ps where "evaluated_at E (curr s) ps" by auto
      then have "\<exists>f. curr s ''f'' = Some (Num f)" by (auto simp: evaluated_at_iff)
      with fill(3) show ?thesis by simp
    next
      case new
      then have "evaluated_at E (curr s1) (positions s)"
        using ufb_new_evaluated [of E feval s b s1] by (simp add: PES_get_x_def apos_def)
      with Pair show ?thesis by auto
    qed
  qed
qed

lemma reachable_evaluated:
  "reachable E s \<Longrightarrow>
     curr s ''x'' = Some PyNone \<or> (\<exists>ps. evaluated_at E (curr s) ps)"
proof (induction rule: reachable.induct)
  case (r_init atoms H0)
  show ?case by (simp add: PES_init_curr empty_cache_def)
next
  case (r_set_x s target)
  then show ?case by (simp add: PES_set_x_curr)
next
  case (r_update s feval)
  from r_update.IH show ?case by (rule PES_update_evaluated_inv)
next
  case (r_eval s)
  then show ?case by (simp add: PES_eval_curr)
next
  case (r_save s)
  then show ?case by (simp add: PES_save_def)
next
  case (r_restore s)
  then show ?case by (simp add: PES_restore_curr)
next
  case (r_calc_eg s x)
  then show ?case by (simp add: PES_calc_eg_curr)
next
  case (r_hessian s h b)
  then show ?case by simp
qed

lemma PES_update_reads_position:
  assumes "PES_update E feval s = (Inr b, s1)"
  shows "curr s1 ''x'' = Some (Vec (PES_get_x s1)) \<and> positions s1 = positions s"
  using assms
proof (cases rule: PES_update_cases)
  case same
  then show ?thesis by simp
next
  case fill
  then show ?thesis using ufb_inplace [OF fill(4)] by (simp add: PES_get_x_def apos_def)
next
  case new
  then show ?thesis using ufb_new [OF new(2)] by (simp add: PES_get_x_def apos_def)
qed

lemma PES_update_then_no_eval:
  assumes "PES_update E feval s = (Inr b, s1)"
  shows "PES_update E False s1 = (Inr False, s1)"
  using PES_update_reads_position [OF assms]
  by (simp add: PES_update_def getitem_def)

text \<open>After an update that returns, the cache holds the evaluation at the position the
  structure is at.\<close>

lemma PES_update_evaluated:
  assumes "reachable E s" and "PES_update E feval s = (Inr b, s1)"
  shows "evaluated_at E (curr s1) (positions s1) \<and> positions s1 = positions s"
proof -
  have r1: "reachable E s1"
    using reachable.r_update [OF assms(1), of feval] assms(2) by simp
  have x: "curr s1 ''x'' = Some (Vec (ravel (positions s1)))" and p: "positions s1 = positions s"
    using PES_update_reads_position [OF assms(2)] by (simp_all add: PES_get_x_def apos_def)
  from reachable_evaluated [OF r1] x obtain ps where ev: "evaluated_at E (curr s1) ps"
    by auto
  then have "ravel ps = ravel (positions s1)" using x by (auto simp: evaluated_at_iff)
  then have "ps = positions s1" by (rule ravel_inj)
  with ev p show ?thesis by simp
qed

section \<open>Evaluating the harmonic well\<close>

lemma PES_update_miss:
  assumes "curr s ''x'' = Some v" and "v \<noteq> Vec (PES_get_x s)"
    and "atoms_energy E (positions s) = Inr f" and "atoms_forces E (positions s) = Inr fs"
  shows "PES_update E feval s =
           (Inr True,
            update_store True (PES_get_x s) (Num f) (Vec (map uminus (ravel fs)))
              (Vec (lstsq E (transpose (fst (calc_basis E (positions s))))
                     (map uminus (ravel fs))))
              (calc_basis E (positions s))
              ((if feval then s else s\<lparr>log := log s @ [''Force change feval'']\<rparr>)
                 \<lparr>neval := neval s + 1\<rparr>))"
  using assms
  by (simp add: PES_update_def getitem_def np_all_eq_iff update_from_basis_def PES_eval_def
      Let_def)

lemma PES_update_hit:
  assumes "curr s ''x'' = Some (Vec (PES_get_x s))" and "curr s ''f'' = Some v"
    and "v \<noteq> PyNone"
  shows "PES_update E feval s = (Inr False, s)"
  using assms by (simp add: PES_update_def getitem_def)

lemma PES_update_fill:
  assumes "curr s ''x'' = Some (Vec (PES_get_x s))" and "curr s ''f'' = Some PyNone"
    and "atoms_energy E (positions s) = Inr f" and "atoms_forces E (positions s) = Inr fs"
  shows "PES_update E True s =
           (Inr True,
            update_store False (PES_get_x s) (Num f) (Vec (map uminus (ravel fs)))
              (Vec (lstsq E (transpose (fst (calc_basis E (positions s))))
                     (map uminus (ravel fs))))
              (calc_basis E (positions s)) (s\<lparr>neval := neval s + 1\<rparr>))"
  using assms
  by (simp add: PES_update_def getitem_def update_from_basis_def PES_eval_def Let_def)

lemma spring_env:
  "atoms_energy env_spring [(a, b, c)] = Inr ((a * a + b * b + c * c) / 2)"
  "atoms_forces env_spring [(a, b, c)] = Inr [(- a, - b, - c)]"
  "calc_basis env_spring p = ([[0, 0, 1]], [[0], [0], [1]], eye3, [[1, 0], [0, 1], [0, 0]])"
  "cons_residual env_spring [(a, b, c)] = [c]"
  by (simp_all add: env_spring_def)

lemma init_simps:
  "positions (PES_init atoms H0) = atoms" "neval (PES_init atoms H0) = 0"
  "last (PES_init atoms H0) = empty_cache" "log (PES_init atoms H0) = []"
  by (cases H0; simp add: PES_init_def set_H_def Let_def)+

lemma spring_A_update:
  "PES_update env_spring True (PES_init [(0, 0, 0)] None) = (Inr True, spring_A)"
proof -
  have "fst (PES_update env_spring True (PES_init [(0, 0, 0)] None)) = Inr True"
    by (subst PES_update_miss [where v = PyNone and f = 0 and fs = "[(0, 0, 0)]"])
       (simp_all add: PES_init_curr empty_cache_def init_simps spring_env)
  then show ?thesis by (simp add: spring_A_def prod_eq_iff)
qed

lemma spring_A_simps:
  "positions spring_A = [(0, 0, 0)]" "neval spring_A = Suc 0"
  "curr spring_A ''x'' = Some (Vec [0, 0, 0])" "curr spring_A ''f'' = Some (Num 0)"
  "curr spring_A ''g'' = Some (Vec [0, 0, 0])" "last spring_A ''x'' = Some PyNone"
  "log spring_A = []"
  unfolding spring_A_def
  by (subst PES_update_miss [where v = PyNone and f = 0 and fs = "[(0, 0, 0)]"],
      simp_all add: PES_init_curr empty_cache_def init_simps spring_env update_store_def
        PES_get_x_def apos_def)+

lemma spring_B_simps:
  "positions spring_B = [(1, 2, 3)]" "neval spring_B = Suc 0" "curr spring_B = curr spring_A"
  "last spring_B = last spring_A" "log spring_B = []"
  by (simp_all add: spring_B_def PES_set_x_def np_sub_def PES_get_x_def apos_def spring_A_simps)

lemma spring_B_reachable: "reachable env_spring spring_B"
  unfolding spring_B_def spring_A_def by (intro r_set_x r_update r_init)

lemma spring_B_update:
  "PES_update env_spring feval spring_B = (Inr True, snd (PES_update env_spring feval spring_B))"
proof -
  have "fst (PES_update env_spring feval spring_B) = Inr True"
    by (subst PES_update_miss [where v = "Vec [0, 0, 0]" and f = 7 and fs = "[(- 1, - 2, - 3)]"])
       (simp_all add: spring_B_simps spring_A_simps spring_env PES_get_x_def apos_def)
  then show ?thesis by (simp add: prod_eq_iff)
qed

lemma spring_B_update_simps:
  "positions (snd (PES_update env_spring feval spring_B)) = [(1, 2, 3)]"
  "neval (snd (PES_update env_spring feval spring_B)) = Suc (Suc 0)"
  "curr (snd (PES_update env_spring feval spring_B)) ''x'' = Some (Vec [1, 2, 3])"
  "curr (snd (PES_update env_spring feval spring_B)) ''f'' = Some (Num 7)"
  "curr (snd (PES_update env_spring feval spring_B)) ''g'' = Some (Vec [1, 2, 3])"
  "last (snd (PES_update env_spring feval spring_B)) = curr spring_A"
  "log (snd (PES_update env_spring feval spring_B))
     = (if feval then [] else [''Force change feval''])"
  by (subst PES_update_miss [where v = "Vec [0, 0, 0]" and f = 7 and fs = "[(- 1, - 2, - 3)]"],
      simp_all add: spring_B_simps spring_A_simps spring_env update_store_def
        PES_get_x_def apos_def)+

lemma spring_C_simps:
  "positions spring_C = [(1, 2, 3)]" "neval spring_C = Suc (Suc 0)"
  "curr spring_C ''x'' = Some (Vec [1, 2, 3])" "curr spring_C ''f'' = Some (Num 7)"
  "curr spring_C ''g'' = Some (Vec [1, 2, 3])" "last spring_C = curr spring_A"
  unfolding spring_C_def by (simp_all add: spring_B_update_simps)

lemma spring_C_update: "PES_update env_spring feval spring_C = (Inr False, spring_C)"
  by (rule PES_update_hit [where v = "Num 7"])
     (simp_all add: spring_C_simps PES_get_x_def apos_def)

lemma spring_C_reachable: "reachable env_spring spring_C"
  unfolding spring_C_def by (intro r_update spring_B_reachable)

lemma spring_D_simps:
  "positions spring_D = [(1, 2, 3)]" "curr spring_D ''x'' = Some (Vec [1, 2, 3])"
  "curr spring_D ''f'' = Some PyNone" "last spring_D = curr spring_A"
  "neval spring_D = Suc (Suc 0)"
  by (simp_all add: spring_D_def spring_C_simps)

lemma spring_D_update:
  "PES_update env_spring True spring_D = (Inr True, snd (PES_update env_spring True spring_D))"
proof -
  have "fst (PES_update env_spring True spring_D) = Inr True"
    by (subst PES_update_fill [where f = 7 and fs = "[(- 1, - 2, - 3)]"])
       (simp_all add: spring_D_simps spring_env PES_get_x_def apos_def)
  then show ?thesis by (simp add: prod_eq_iff)
qed

lemma spring_D_update_simps:
  "curr (snd (PES_update env_spring True spring_D)) ''x'' = Some (Vec [1, 2, 3])"
  "curr (snd (PES_update env_spring True spring_D)) ''f'' = Some (Num 7)"
  "last (snd (PES_update env_spring True spring_D)) = curr spring_A"
  "neval (snd (PES_update env_spring True spring_D)) = Suc (Suc (Suc 0))"
  by (subst PES_update_fill [where f = 7 and fs = "[(- 1, - 2, - 3)]"],
      simp_all add: spring_D_simps spring_env update_store_def PES_get_x_def apos_def)+

lemma sqrt_25: "sqrt 25 = 5"
  by (rule real_sqrt_unique) simp_all

lemma sqrt_4: "sqrt 4 = 2"
  by (rule real_sqrt_unique) simp_all

lemma spring_E_update:
  "PES_update env_spring True (PES_init [(3, 4, 2)] None) = (Inr True, spring_E)"
proof -
  have "fst (PES_update env_spring True (PES_init [(3, 4, 2)] None)) = Inr True"
    by (subst PES_update_miss [where v = PyNone and f = "29 / 2" and fs = "[(- 3, - 4, - 2)]"])
       (simp_all add: PES_init_curr empty_cache_def init_simps spring_env)
  then show ?thesis by (simp add: spring_E_def prod_eq_iff)
qed

lemma spring_E_simps:
  "positions spring_E = [(3, 4, 2)]"
  "curr spring_E ''g'' = Some (Vec [3, 4, 2])"
  "curr spring_E ''Ufree'' = Some (Mat [[1, 0], [0, 1], [0, 0]])"
  unfolding spring_E_def
  by (subst PES_update_miss [where v = PyNone and f = "29 / 2" and fs = "[(- 3, - 4, - 2)]"],
      simp_all add: PES_init_curr empty_cache_def init_simps spring_env update_store_def
        PES_get_x_def apos_def)+

lemma spring_E_get_g: "PES_get_g env_spring (PES_init [(3, 4, 2)] None) = (Inr [3, 4, 2], spring_E)"
  by (simp add: PES_get_g_def spring_E_update getitem_def spring_E_simps)

lemma spring_E_get_Ufree:
  "PES_get_Ufree env_spring spring_E = (Inr (Mat [[1, 0], [0, 1], [0, 0]]), spring_E)"
  by (simp add: PES_get_Ufree_def PES_update_then_no_eval [OF spring_E_update] getitem_def
      spring_E_simps)

lemma spring_E_projected:
  "PES_get_projected_forces env_spring (PES_init [(3, 4, 2)] None)
     = (Inr [(- 3, - 4, 0)], spring_E)"
  by (simp add: PES_get_projected_forces_def spring_E_get_g spring_E_get_Ufree
      matmul_T_def matvec_def dot_def)

lemma spring_E_converged:
  "PES_converged env_spring fmax cmax (PES_init [(3, 4, 2)] None)
     = (Inr (5 < fmax \<and> 2 < cmax, 5, 2), spring_E)"
  by (simp add: PES_converged_def spring_E_projected norm3_def l2norm_def PES_get_res_def
      spring_E_simps spring_env sqrt_25 sqrt_4 Let_def)

section \<open>Further runs of the concrete integrator\<close>




section \<open>The claims\<close>




text \<open>
  Claim C2 as stated fails: the loop stops at \<open>t0 = 1/2\<close>, the Jacobian applied to the
  third row of \<open>y\<close> is \<open>[2, 0, 0]\<close>, and the gradient returned is \<open>[2, 0, 0]\<close>, not half
  of it.
\<close>

theorem IPES_set_x_gradient_counterexample:
  "map_option fst (IPES_set_x (demo_ienv 1) 5 [1, 0, 0] demo_ipes)
     = Some (Inr ([1 / 2, 0, 0], [1 / 2, 0, 0], [2, 0, 0]))
   \<and> map_option (\<lambda>r. lsoda_t (demo_ienv 1) (fst (snd r)))
        (ode_loop (demo_ienv 1) 5 (0, [0, 0, 0, 1, 0, 0, 2, 0, 0]) None 0 demo_ipes)
        = Some (1 / 2)
   \<and> matvec (int_jacobian (demo_ienv 1) () [(1 / 2, 0, 0)] []) [2, 0, 0] = Inr [2, 0, 0]
   \<and> map ((*) (1 / 2)) [2, 0, 0] = [1, 0, 0 :: real]
   \<and> [2, 0, 0] \<noteq> [1, 0, 0 :: real]"
  by (simp add: demo_finish demo_loop) (simp add: demo_ienv_def matvec_def eye3_def dot_def)

text \<open>
  Claim C2, as the code has it. When \<^verbatim>\<open>InternalPES.set_x\<close> returns a triple, the loop was
  left by its test or by \<^verbatim>\<open>break\<close> in an integrator state \<open>ode\<close> after at least one step. With
  \<open>t0\<close> and \<open>y\<close> the time and the vector of \<open>ode\<close>, the first row of \<open>y\<close> is the new position
  of the atoms and the dummy atoms, and with \<open>B\<close> the Jacobian there: the first component is
  the requested displacement scaled by \<open>t0\<close>, the second is \<open>B\<close> applied to the second row
  of \<open>y\<close>, scaled by \<open>t0\<close>, and the third is \<open>B\<close> applied to the third row of \<open>y\<close>, not
  scaled.
\<close>

theorem IPES_set_x_result:
  assumes "IPES_set_x I fuel target s = Some (Inr (dx_initial, dx_final, g_final), s')"
  shows "\<exists>dx ode0 s1 ex ode s2 u.
           IPES_set_x_start I target s = (Inr (dx, ode0), s1) \<and>
           np_sub target (IPES_get_x I s) = Inr dx \<and>
           ode_loop I fuel ode0 None 0 s1 = Some (ex, ode, Some (lsoda_y I ode), lsoda_t I ode, s2) \<and>
           (ex = ExitWhile \<or> ex = ExitBreak) \<and>
           (let t0 = lsoda_t I ode; y = lsoda_y I ode;
                n = 3 * length (positions s') + 3 * length (dummies s');
                B = int_jacobian I (ints s') (positions s') (dummies s')
            in ravel (positions s') @ ravel (dummies s') = take n y \<and>
               dx_initial = map ((*) t0) dx \<and>
               matvec B (take n (drop n y)) = Inr u \<and> dx_final = map ((*) t0) u \<and>
               matvec B (drop (2 * n) y) = Inr g_final)"
proof -
  obtain r1 s1 where st: "IPES_set_x_start I target s = (r1, s1)"
    by (cases "IPES_set_x_start I target s")
  from assms st obtain dx ode0 where r1: "r1 = Inr (dx, ode0)"
    by (cases r1) (auto simp: IPES_set_x_def)
  from assms st r1 obtain ex ode y t0 s2 where
    loop: "ode_loop I fuel ode0 None 0 s1 = Some (ex, ode, y, t0, s2)" and
    fin: "IPES_set_x_finish I dx ex ode y t0 s2 = (Inr (dx_initial, dx_final, g_final), s')"
    by (auto simp: IPES_set_x_def split: option.splits)
  note le = ode_loop_exit [OF loop]
  note sf = IPES_set_x_start_frame [OF st]
  from fin have exs: "ex = ExitWhile \<or> ex = ExitBreak"
    by (cases ex) (auto simp: IPES_set_x_finish_def)
  from fin exs obtain yy where y: "y = Some yy"
    by (cases y) (auto simp: IPES_set_x_finish_def split: if_splits)
  with le exs have yt: "yy = lsoda_y I ode" "t0 = lsoda_t I ode"
    by auto
  let ?n = "3 * length (positions s2) + 3 * length (dummies s2)"
  from fin exs y have len: "length yy = 3 * ?n"
    by (auto simp: IPES_set_x_finish_def Let_def split: if_splits)
  from fin exs y len obtain pa pd where
    pa: "reshape3 (take (3 * length (positions s2)) (take ?n yy)) = Inr pa" and
    pd: "reshape3 (drop (3 * length (positions s2)) (take ?n yy)) = Inr pd" and
    s': "s' = s2\<lparr>positions := pa, dummies := pd\<rparr>" and
    dxf: "matvec (scale t0 (int_jacobian I (ints s2) pa pd)) (take ?n (drop ?n yy)) = Inr dx_final" and
    gf: "matvec (int_jacobian I (ints s2) pa pd) (drop (2 * ?n) yy) = Inr g_final" and
    dxi: "dx_initial = map ((*) t0) dx"
    by (auto simp: IPES_set_x_finish_def Let_def split: if_splits sum.splits)
  have la: "length pa = length (positions s2)"
    using reshape3_length [OF pa] len by simp
  have ld: "length pd = length (dummies s2)"
    using reshape3_length [OF pd] len by simp
  have rav: "ravel pa @ ravel pd = take ?n yy"
    unfolding ravel_reshape3 [OF pa] ravel_reshape3 [OF pd] by (rule append_take_drop_id)
  from dxf obtain u where
    u: "matvec (int_jacobian I (ints s2) pa pd) (take ?n (drop ?n yy)) = Inr u"
    and du: "dx_final = map ((*) t0) u"
    by (auto simp: matvec_scale split: sum.splits)
  show ?thesis
    using st r1 sf loop y yt exs s' la ld rav dxi u du gf
    by (auto simp: Let_def)
qed

theorem IPES_set_x_result_witness:
  "IPES_set_x (demo_ienv 1) 5 [1, 0, 0] demo_ipes
     = Some (Inr ([1 / 2, 0, 0], [1 / 2, 0, 0], [2, 0, 0]),
             demo_ipes\<lparr>positions := [(1 / 2, 0, 0)], dummies := [],
                        bad_int := Some \<lparr>bad_bonds = [(0, 1)], bad_angles = []\<rparr>,
                        log := [''Bad internals found!'']\<rparr>)
   \<and> np_sub [1, 0, 0] (IPES_get_x (demo_ienv 1) demo_ipes) = Inr [1, 0, 0]"
  using IPES_set_x_result [OF demo_finish [of 1]] demo_finish [of 1]
  by (simp add: demo_start)

text \<open>
  Claim C3 as stated fails: with an evaluator that raises, \<^verbatim>\<open>_calc_eg\<close> at the probe point
  \<open>[1, 0, 0]\<close> raises and leaves the atom at \<open>(1, 0, 0)\<close>, not at the origin where it was.
\<close>

theorem PES_calc_eg_counterexample:
  "positions (PES_init [(0, 0, 0)] None) = [(0, 0, 0)]
   \<and> fst (PES_calc_eg env_failing [1, 0, 0] (PES_init [(0, 0, 0)] None)) = Inl CalcError
   \<and> positions (snd (PES_calc_eg env_failing [1, 0, 0] (PES_init [(0, 0, 0)] None)))
        = [(1, 0, 0)]"
  by (simp add: PES_calc_eg_def PES_save_def PES_set_x_def np_sub_def PES_get_x_def apos_def
      init1_simps PES_eval_def env_failing_def env_flat_def Let_def)

text \<open>
  Claim C3, as the code has it. When \<^verbatim>\<open>_calc_eg\<close> returns, the position is the one saved on
  entry and one evaluation was counted. When it raises on a probe point of the right
  length, the exception is the evaluator's, and the structure is left at the probe point
  with the evaluation counted. A probe point of another length makes \<^verbatim>\<open>set_x\<close> raise before
  anything moved.
\<close>

theorem PES_calc_eg_restore:
  assumes "PES_calc_eg E x s = (r, s')"
  shows "(case r of
            Inr fg \<Rightarrow> positions s' = positions s \<and> neval s' = neval s + 1
          | Inl e \<Rightarrow>
              if length x = 3 * length (positions s)
              then PES_get_x s' = x \<and> neval s' = neval s + 1
              else e = NumpyError \<and> positions s' = positions s \<and> neval s' = neval s)"
proof (cases "PES_set_x x (PES_save s)")
  case (Pair r1 s2)
  show ?thesis
  proof (cases r1)
    case (Inl e)
    with Pair have "s2 = PES_save s" "e = NumpyError" "length x \<noteq> 3 * length (positions s)"
      using PES_set_x_err [of x "PES_save s" e s2] by (auto simp: PES_save_def)
    with Pair Inl assms show ?thesis
      by (auto simp: PES_calc_eg_def Let_def PES_save_def)
  next
    case (Inr v)
    with Pair have ok: "length x = 3 * length (positions s)" "PES_get_x s2 = x"
      "sp_apos s2 = Some (positions s)" "sp_dpos s2 = None" "neval s2 = neval s"
      using PES_set_x_ok [of x "PES_save s" v s2] by (auto simp: PES_save_def apos_def)
    obtain r2 s3 where ev: "PES_eval E s2 = (r2, s3)" by (cases "PES_eval E s2")
    then have s3: "s3 = s2\<lparr>neval := neval s2 + 1\<rparr>" by (rule PES_eval_frame)
    show ?thesis
    proof (cases r2)
      case (Inl e)
      with Pair Inr ev assms have "r = Inl e" "s' = s3"
        by (auto simp: PES_calc_eg_def Let_def)
      with ok s3 show ?thesis by (simp add: PES_get_x_def apos_def)
    next
      case (Inr fg)
      have "PES_restore s3 = (Inr (), s3\<lparr>positions := positions s\<rparr>)"
        using ok s3 by (intro PES_restore_saved) auto
      with Pair \<open>r1 = Inr v\<close> Inr ev assms have "r = Inr fg" "s' = s3\<lparr>positions := positions s\<rparr>"
        by (auto simp: PES_calc_eg_def Let_def)
      with ok s3 show ?thesis by simp
    qed
  qed
qed

theorem PES_calc_eg_restore_witness:
  "fst (PES_calc_eg env_flat [1, 0, 0] (PES_init [(0, 0, 0)] None)) = Inr (0, [0, 0, 0])
   \<and> positions (snd (PES_calc_eg env_flat [1, 0, 0] (PES_init [(0, 0, 0)] None))) = [(0, 0, 0)]
   \<and> neval (snd (PES_calc_eg env_flat [1, 0, 0] (PES_init [(0, 0, 0)] None))) = 1"
proof -
  have f: "fst (PES_calc_eg env_flat [1, 0, 0] (PES_init [(0, 0, 0)] None)) = Inr (0, [0, 0, 0])"
    by (simp add: PES_calc_eg_def PES_save_def PES_set_x_def np_sub_def PES_get_x_def apos_def
        init1_simps PES_eval_def env_flat_def PES_restore_def Let_def)
  then have h: "PES_calc_eg env_flat [1, 0, 0] (PES_init [(0, 0, 0)] None)
      = (Inr (0, [0, 0, 0]), snd (PES_calc_eg env_flat [1, 0, 0] (PES_init [(0, 0, 0)] None)))"
    by (simp add: prod_eq_iff)
  show ?thesis
    using PES_calc_eg_restore [OF h] f by (simp add: init1_simps)
qed

text \<open>
  Claim C4. When \<^verbatim>\<open>_update\<close> returns \<open>b\<close>: \<open>b\<close> says whether an evaluation was made (the
  counter went up by one exactly then), and without one the object is unchanged; an
  evaluation is made only if the position changed or, with \<open>feval\<close>, the cache held no
  energy. A second \<^verbatim>\<open>_update\<close> right after returns \<^verbatim>\<open>False\<close> and changes nothing, and so
  \<^verbatim>\<open>get_f\<close> and \<^verbatim>\<open>get_g\<close> called again return what they returned and leave the object, its
  counter included, as it was.
\<close>

theorem PES_update_idempotent:
  assumes "PES_update E feval s = (Inr b, s1)"
  shows "(b \<longleftrightarrow> neval s1 = neval s + 1) \<and> (\<not> b \<longrightarrow> s1 = s)
         \<and> (b \<longrightarrow> position_changed s \<or> (feval \<and> curr s ''f'' = Some PyNone))
         \<and> PES_update E feval s1 = (Inr False, s1)
         \<and> (feval \<longrightarrow> PES_get_f E s1 = (fst (PES_get_f E s), s1)
                     \<and> PES_get_g E s1 = (fst (PES_get_g E s), s1))"
proof -
  have again: "PES_update E feval s1 = (Inr False, s1)"
    using assms by (rule PES_update_again)
  have getters: "feval \<longrightarrow> PES_get_f E s1 = (fst (PES_get_f E s), s1)
                     \<and> PES_get_g E s1 = (fst (PES_get_g E s), s1)"
    using assms again
    by (auto simp: PES_get_f_def PES_get_g_def split: sum.splits pyval.splits)
  have rest: "(b \<longleftrightarrow> neval s1 = neval s + 1) \<and> (\<not> b \<longrightarrow> s1 = s)
         \<and> (b \<longrightarrow> position_changed s \<or> (feval \<and> curr s ''f'' = Some PyNone))"
    using assms
  proof (cases rule: PES_update_cases)
    case same
    then show ?thesis by simp
  next
    case fill
    then show ?thesis using ufb_inplace [OF fill(4)] by simp
  next
    case new
    then show ?thesis using ufb_new [OF new(2)] by (auto simp: position_changed_def)
  qed
  show ?thesis using again getters rest by blast
qed

theorem PES_update_idempotent_witness:
  "PES_update env_flat True (PES_init [(0, 0, 0)] None)
     = (Inr True, snd (PES_update env_flat True (PES_init [(0, 0, 0)] None)))
   \<and> neval (snd (PES_update env_flat True (PES_init [(0, 0, 0)] None))) = 1
   \<and> PES_update env_flat True (snd (PES_update env_flat True (PES_init [(0, 0, 0)] None)))
       = (Inr False, snd (PES_update env_flat True (PES_init [(0, 0, 0)] None)))
   \<and> neval (snd (PES_get_f env_flat (snd (PES_update env_flat True (PES_init [(0, 0, 0)] None)))))
       = 1"
  using PES_update_idempotent [OF update_init1_eq [of True]] update_init1_eq [of True]
  by (simp add: init1_simps)

text \<open>
  Claim C5. For a target with three numbers for each atom, \<^verbatim>\<open>PES.set_x\<close> returns the
  difference of the target and the old position twice, with the cached gradient (or the
  zero default), and \<^verbatim>\<open>get_x\<close> called next returns exactly the target.
\<close>

theorem PES_set_x_roundtrip:
  assumes "length target = 3 * length (positions s)"
  shows "fst (PES_set_x target s) =
           Inr (map2 (-) target (PES_get_x s), map2 (-) target (PES_get_x s),
                dict_get (curr s) ''g'' (Vec (replicate (length target) 0)))
         \<and> PES_get_x (snd (PES_set_x target s)) = target"
proof -
  obtain ps where ps: "reshape3 target = Inr ps"
    using reshape3_total [OF assms] by blast
  have len: "length target = length (PES_get_x s)"
    using assms by (simp add: PES_get_x_def apos_def length_ravel)
  show ?thesis
    using ps len ravel_reshape3 [OF ps]
    by (simp add: PES_set_x_def np_sub_def PES_get_x_def apos_def)
qed

theorem PES_set_x_roundtrip_witness:
  "length [1, 2, 3 :: real] = 3 * length (positions (PES_init [(0, 0, 0)] None))
   \<and> fst (PES_set_x [1, 2, 3] (PES_init [(0, 0, 0)] None)) = Inr ([1, 2, 3], [1, 2, 3], PyNone)
   \<and> PES_get_x (snd (PES_set_x [1, 2, 3] (PES_init [(0, 0, 0)] None))) = [1, 2, 3]"
proof -
  have h: "length [1, 2, 3 :: real] = 3 * length (positions (PES_init [(0, 0, 0)] None))"
    by (simp add: init1_simps)
  show ?thesis
    using PES_set_x_roundtrip [OF h] h
    by (simp add: PES_get_x_def apos_def init1_simps dict_get_def PES_init_curr empty_cache_def)
qed

text \<open>
  Claim C6. In a reachable state, when \<^verbatim>\<open>converged\<close> returns \<open>(conv, fmax1, cmax1)\<close>: \<open>conv\<close>
  holds if and only if \<open>fmax1 < fmax\<close> and \<open>cmax1 < cmax\<close>. With \<open>U\<close> the matrix \<^verbatim>\<open>Ufree\<close> that
  \<^verbatim>\<open>_calc_basis\<close> gives at the current position and \<open>g\<close> the negated forces of the evaluator
  there, \<open>fmax1\<close> is the largest norm of a row of \<open>- (U U\<^sup>T) g\<close> reshaped to three columns,
  which is what \<^verbatim>\<open>get_projected_forces\<close> returns; \<open>cmax1\<close> is the norm of the constraint
  residual at the current position. The position is left as it was.
\<close>

theorem PES_converged_iff:
  assumes "reachable E s"
    and "PES_converged E fmax cmax s = (Inr (conv, fmax1, cmax1), s1)"
  shows "(conv \<longleftrightarrow> fmax1 < fmax \<and> cmax1 < cmax)
         \<and> (\<exists>fs P v ps.
               atoms_forces E (positions s) = Inr fs
               \<and> matmul_T (snd (snd (snd (calc_basis E (positions s)))))
                          (snd (snd (snd (calc_basis E (positions s))))) = Inr P
               \<and> matvec P (map uminus (ravel fs)) = Inr v
               \<and> reshape3 v = Inr ps \<and> ps \<noteq> []
               \<and> PES_get_projected_forces E s
                    = (Inr (map (\<lambda>(a, b, c). (- a, - b, - c)) ps), s1)
               \<and> fmax1 = Max (norm3 ` set (map (\<lambda>(a, b, c). (- a, - b, - c)) ps)))
         \<and> cmax1 = l2norm (cons_residual E (positions s))
         \<and> positions s1 = positions s"
proof -
  obtain r s2 where pfr: "PES_get_projected_forces E s = (r, s2)"
    by (cases "PES_get_projected_forces E s")
  with assms(2) obtain pf where r: "r = Inr pf" and s2: "s2 = s1"
    by (auto simp: PES_converged_def Let_def split: sum.splits list.splits)
  from assms(2) pfr r obtain n ns where m: "map norm3 pf = n # ns"
    by (auto simp: PES_converged_def Let_def split: list.splits)
  then have ne: "pf \<noteq> []" by auto
  have vals: "fmax1 = fold max ns n" "cmax1 = l2norm (PES_get_res E s1)"
       "conv \<longleftrightarrow> fmax1 < fmax \<and> cmax1 < cmax"
    using assms(2) pfr r m by (auto simp: PES_converged_def Let_def)
  have mx: "fold max ns n = Max (norm3 ` set pf)"
    using m fold_max_Max [of ns n] by (metis set_map)
  obtain rg sA where gg: "PES_get_g E s = (rg, sA)" by (cases "PES_get_g E s")
  with pfr r s2 obtain g where rg: "rg = Inr g"
    by (auto simp: PES_get_projected_forces_def split: sum.splits)
  from gg rg obtain b where up: "PES_update E True s = (Inr b, sA)"
    and cg: "curr sA ''g'' = Some (Vec g)"
    by (auto simp: PES_get_g_def getitem_def
        split: prod.splits sum.splits option.splits pyval.splits)
  have ev: "evaluated_at E (curr sA) (positions sA)" and pA: "positions sA = positions s"
    using PES_update_evaluated [OF assms(1) up] by blast+
  have uf: "PES_get_Ufree E sA = (getitem (curr sA) ''Ufree'', sA)"
    using PES_update_then_no_eval [OF up] by (simp add: PES_get_Ufree_def)
  from ev pA cg obtain fs where fs: "atoms_forces E (positions s) = Inr fs"
    and g: "g = map uminus (ravel fs)"
    and U: "curr sA ''Ufree'' = Some (Mat (snd (snd (snd (calc_basis E (positions s))))))"
    by (auto simp: evaluated_at_iff)
  let ?U = "snd (snd (snd (calc_basis E (positions s))))"
  from pfr r s2 gg rg uf U obtain P v ps where
    P: "matmul_T ?U ?U = Inr P" and v: "matvec P g = Inr v" and ps: "reshape3 v = Inr ps"
    and pf: "pf = map (\<lambda>(a, b, c). (- a, - b, - c)) ps" and sA: "sA = s1"
    by (auto simp: PES_get_projected_forces_def getitem_def split: sum.splits)
  have "ps \<noteq> []" using ne pf by auto
  moreover have "cmax1 = l2norm (cons_residual E (positions s))"
    using vals(2) sA pA by (simp add: PES_get_res_def)
  ultimately show ?thesis
    using vals(1,3) mx fs g P v ps pf pfr r s2 sA pA by auto
qed

theorem PES_converged_iff_witness:
  "reachable env_spring (PES_init [(3, 4, 2)] None)
   \<and> PES_converged env_spring 6 3 (PES_init [(3, 4, 2)] None) = (Inr (True, 5, 2), spring_E)
   \<and> PES_converged env_spring 4 3 (PES_init [(3, 4, 2)] None) = (Inr (False, 5, 2), spring_E)
   \<and> PES_converged env_spring 6 1 (PES_init [(3, 4, 2)] None) = (Inr (False, 5, 2), spring_E)
   \<and> atoms_forces env_spring [(3, 4, 2)] = Inr [(- 3, - 4, - 2)]
   \<and> cons_residual env_spring [(3, 4, 2)] = [2]
   \<and> PES_get_projected_forces env_spring (PES_init [(3, 4, 2)] None)
        = (Inr [(- 3, - 4, 0)], spring_E)
   \<and> norm3 (- 3, - 4, 0) = 5
   \<and> l2norm [2] = 2"
proof -
  have r: "reachable env_spring (PES_init [(3, 4, 2)] None)" by (rule r_init)
  have h1: "PES_converged env_spring 6 3 (PES_init [(3, 4, 2)] None)
              = (Inr (True, 5, 2), spring_E)"
    by (simp add: spring_E_converged)
  have h2: "PES_converged env_spring 4 3 (PES_init [(3, 4, 2)] None)
              = (Inr (False, 5, 2), spring_E)"
    by (simp add: spring_E_converged)
  have h3: "PES_converged env_spring 6 1 (PES_init [(3, 4, 2)] None)
              = (Inr (False, 5, 2), spring_E)"
    by (simp add: spring_E_converged)
  show ?thesis
    using PES_converged_iff [OF r h1] PES_converged_iff [OF r h2] PES_converged_iff [OF r h3]
      r h1 h2 h3
    by (simp add: spring_env spring_E_projected norm3_def l2norm_def sqrt_25 sqrt_4)
qed

text \<open>
  Claim C7. In a reachable state, when \<^verbatim>\<open>_update(False)\<close> returns, the cache entry is the
  one an evaluation at the current position stores: the energy and the negated forces of
  the evaluator there, with the basis matrices of that position. If the cache held no
  energy for the current position before, the call returns \<^verbatim>\<open>True\<close>, one evaluation was
  counted, the line \<^verbatim>\<open>Force change feval\<close> was printed and the old entry became \<^verbatim>\<open>last\<close>;
  otherwise it returns \<^verbatim>\<open>False\<close> and nothing changed.
\<close>

theorem PES_update_forced:
  assumes "reachable E s" and "PES_update E False s = (Inr b, s1)"
  shows "evaluated_at E (curr s1) (positions s1) \<and> cache_has_energy s1
         \<and> positions s1 = positions s
         \<and> (b \<longleftrightarrow> \<not> cache_has_energy s)
         \<and> (if cache_has_energy s then s1 = s
            else neval s1 = neval s + 1 \<and> log s1 = log s @ [''Force change feval'']
                 \<and> last s1 = curr s)"
proof -
  have sh: "cache_shape s" using assms(1) by (rule reachable_cache_shape)
  have ev: "evaluated_at E (curr s1) (positions s1) \<and> positions s1 = positions s"
    using assms by (rule PES_update_evaluated)
  then have he: "cache_has_energy s1"
    by (auto simp: evaluated_at_iff cache_has_energy_def PES_get_x_def apos_def)
  have rest: "(b \<longleftrightarrow> \<not> cache_has_energy s)
         \<and> (if cache_has_energy s then s1 = s
            else neval s1 = neval s + 1 \<and> log s1 = log s @ [''Force change feval'']
                 \<and> last s1 = curr s)"
    using assms(2)
  proof (cases rule: PES_update_cases)
    case same
    with sh show ?thesis by (auto simp: cache_shape_iff cache_has_energy_def)
  next
    case fill
    then show ?thesis by simp
  next
    case new
    then show ?thesis using ufb_new [OF new(2)]
      by (auto simp: cache_has_energy_def)
  qed
  show ?thesis using ev he rest by blast
qed

theorem PES_update_forced_witness:
  "reachable env_spring spring_B
   \<and> PES_update env_spring False spring_B
       = (Inr True, snd (PES_update env_spring False spring_B))
   \<and> atoms_energy env_spring [(1, 2, 3)] = Inr 7
   \<and> atoms_forces env_spring [(1, 2, 3)] = Inr [(- 1, - 2, - 3)]
   \<and> positions (snd (PES_update env_spring False spring_B)) = [(1, 2, 3)]
   \<and> curr (snd (PES_update env_spring False spring_B)) ''f'' = Some (Num 7)
   \<and> curr (snd (PES_update env_spring False spring_B)) ''g'' = Some (Vec [1, 2, 3])
   \<and> evaluated_at env_spring (curr (snd (PES_update env_spring False spring_B))) [(1, 2, 3)]
   \<and> neval spring_B = 1
   \<and> neval (snd (PES_update env_spring False spring_B)) = 2
   \<and> log (snd (PES_update env_spring False spring_B)) = [''Force change feval'']
   \<and> reachable env_spring spring_C
   \<and> cache_has_energy spring_C
   \<and> PES_update env_spring False spring_C = (Inr False, spring_C)"
proof -
  have nB: "\<not> cache_has_energy spring_B"
    by (simp add: cache_has_energy_def spring_B_simps spring_A_simps PES_get_x_def apos_def)
  have hC: "cache_has_energy spring_C"
    by (simp add: cache_has_energy_def spring_C_simps PES_get_x_def apos_def)
  show ?thesis
    using PES_update_forced [OF spring_B_reachable spring_B_update [of False]]
      PES_update_forced [OF spring_C_reachable spring_C_update [of False]]
      spring_B_reachable spring_C_reachable spring_B_update [of False]
      spring_C_update [of False] nB hC
    by (simp add: spring_B_update_simps spring_B_simps spring_env)
qed

text \<open>
  Claim C8. When \<^verbatim>\<open>_update\<close> returns, \<^verbatim>\<open>curr['x']\<close> is the position just read. If the position
  had changed, \<^verbatim>\<open>last\<close> is the previous \<^verbatim>\<open>curr\<close>; if not, \<^verbatim>\<open>last\<close> is unchanged, also when
  the energy and the gradient were filled in.
\<close>

theorem PES_update_promotes:
  assumes "PES_update E feval s = (Inr b, s1)"
  shows "curr s1 ''x'' = Some (Vec (PES_get_x s1)) \<and> PES_get_x s1 = PES_get_x s
         \<and> (if position_changed s then last s1 = curr s else last s1 = last s)"
  using assms
proof (cases rule: PES_update_cases)
  case same
  then show ?thesis by (simp add: position_changed_def)
next
  case fill
  then show ?thesis using ufb_inplace [OF fill(4)]
    by (simp add: position_changed_def PES_get_x_def apos_def)
next
  case new
  then show ?thesis using ufb_new [OF new(2)]
    by (auto simp add: position_changed_def PES_get_x_def apos_def)
qed

theorem PES_update_promotes_witness:
  "PES_update env_spring True spring_B = (Inr True, spring_C)
   \<and> position_changed spring_B
   \<and> last spring_B ''x'' = Some PyNone
   \<and> curr spring_B ''x'' = Some (Vec [0, 0, 0])
   \<and> curr spring_C ''x'' = Some (Vec [1, 2, 3])
   \<and> last spring_C = curr spring_B
   \<and> PES_update env_spring True spring_C = (Inr False, spring_C)
   \<and> \<not> position_changed spring_C
   \<and> last spring_C ''x'' = Some (Vec [0, 0, 0])
   \<and> PES_update env_spring True spring_D = (Inr True, snd (PES_update env_spring True spring_D))
   \<and> \<not> position_changed spring_D
   \<and> curr spring_D ''f'' = Some PyNone
   \<and> curr (snd (PES_update env_spring True spring_D)) ''f'' = Some (Num 7)
   \<and> last (snd (PES_update env_spring True spring_D)) = last spring_D
   \<and> last (snd (PES_update env_spring True spring_D)) ''x'' = Some (Vec [0, 0, 0])"
proof -
  have hB: "PES_update env_spring True spring_B = (Inr True, spring_C)"
    using spring_B_update [of True] by (simp add: spring_C_def)
  have cB: "position_changed spring_B"
    by (simp add: position_changed_def spring_B_simps spring_A_simps PES_get_x_def apos_def)
  have cC: "\<not> position_changed spring_C"
    by (simp add: position_changed_def spring_C_simps PES_get_x_def apos_def)
  have cD: "\<not> position_changed spring_D"
    by (simp add: position_changed_def spring_D_simps PES_get_x_def apos_def)
  show ?thesis
    using PES_update_promotes [OF hB] PES_update_promotes [OF spring_C_update [of True]]
      PES_update_promotes [OF spring_D_update] hB cB cC cD spring_C_update [of True]
      spring_D_update
    by (simp add: spring_B_simps spring_A_simps spring_C_simps spring_D_simps
        spring_D_update_simps)
qed

text \<open>
  Claim C9. With a Hessian \<open>H0\<close> supplied, \<^verbatim>\<open>InternalPES.__init__\<close> always completes. Whenever
  it completes, the Hessian installed by line 374 has the flag set, the constructed object
  has the same matrix with the flag cleared, and a supplied \<open>H0\<close> is that matrix.
\<close>

theorem IPES_init_not_initialized:
  "(case IPES_init_install I atoms internals H0 of
      Inl e \<Rightarrow> H0 = None \<and> IPES_init I atoms internals H0 = Inl e
    | Inr s0 \<Rightarrow>
        initialized (H s0) \<and>
        (case IPES_init I atoms internals H0 of
           Inl e \<Rightarrow> False
         | Inr s \<Rightarrow> \<not> initialized (H s) \<and> h_B (H s) = h_B (H s0) \<and> bad_int s = None \<and>
                    (case H0 of None \<Rightarrow> True | Some h \<Rightarrow> h_B (H s) = Some h)))"
  by (cases H0)
     (auto simp: IPES_init_def IPES_init_install_def set_H_def ApproximateHessian_def Let_def
       split: prod.splits sum.splits)

theorem IPES_init_not_initialized_witness:
  "\<not> isl (IPES_init (demo_ienv 1) [(0, 0, 0)] () (Some eye3))
   \<and> \<not> initialized (H (projr (IPES_init (demo_ienv 1) [(0, 0, 0)] () (Some eye3))))
   \<and> initialized (H (projr (IPES_init_install (demo_ienv 1) [(0, 0, 0)] () (Some eye3))))
   \<and> h_B (H (projr (IPES_init (demo_ienv 1) [(0, 0, 0)] () (Some eye3)))) = Some eye3"
  using IPES_init_not_initialized
          [where I = "demo_ienv 1" and atoms = "[(0, 0, 0)]" and internals = "()"
             and ?H0.0 = "Some eye3"]
  by (auto split: sum.splits)

text \<open>
  Claim C10. In a reachable state the cache has the key \<^verbatim>\<open>'g'\<close>, so the third component
  \<^verbatim>\<open>PES.set_x\<close> returns is the cache entry and never the zero default; on a freshly
  constructed object it is \<^verbatim>\<open>None\<close>.
\<close>

theorem PES_set_x_cached_gradient:
  assumes "reachable E s"
    and "PES_set_x target s = (Inr (a, b, g), s')"
    and "PES_set_x target0 (PES_init atoms H0) = (Inr (a0, b0, g0), s0)"
  shows "curr s ''g'' = Some g \<and> a = b \<and> g0 = PyNone"
proof -
  have "cache_shape s" using assms(1) by (rule reachable_cache_shape)
  then obtain v where "curr s ''g'' = Some v" by (auto simp: cache_shape_iff)
  with assms(2) have "curr s ''g'' = Some g \<and> a = b"
    by (auto simp: PES_set_x_def dict_get_def split: sum.splits)
  moreover have "g0 = PyNone" using assms(3)
    by (auto simp: PES_set_x_def dict_get_def PES_init_curr empty_cache_def
        split: sum.splits)
  ultimately show ?thesis by simp
qed

theorem PES_set_x_cached_gradient_witness:
  "reachable env_flat (snd (PES_update env_flat True (PES_init [(0, 0, 0)] None)))
   \<and> fst (PES_set_x [1, 2, 3] (snd (PES_update env_flat True (PES_init [(0, 0, 0)] None))))
       = Inr ([1, 2, 3], [1, 2, 3], Vec [0, 0, 0])
   \<and> fst (PES_set_x [1, 2, 3] (PES_init [(0, 0, 0)] None)) = Inr ([1, 2, 3], [1, 2, 3], PyNone)
   \<and> curr (snd (PES_update env_flat True (PES_init [(0, 0, 0)] None))) ''g''
       = Some (Vec [0, 0, 0])"
proof -
  let ?s = "snd (PES_update env_flat True (PES_init [(0, 0, 0)] None))"
  have r: "reachable env_flat ?s" by (intro r_update r_init)
  have f1: "fst (PES_set_x [1, 2, 3] ?s) = Inr ([1, 2, 3], [1, 2, 3], Vec [0, 0, 0])"
    by (simp add: PES_set_x_def np_sub_def PES_get_x_def apos_def update_init1 dict_get_def)
  have f0: "fst (PES_set_x [1, 2, 3] (PES_init [(0, 0, 0)] None))
              = Inr ([1, 2, 3], [1, 2, 3], PyNone)"
    by (simp add: PES_set_x_def np_sub_def PES_get_x_def apos_def init1_simps dict_get_def
        PES_init_curr empty_cache_def)
  have h1: "PES_set_x [1, 2, 3] ?s
              = (Inr ([1, 2, 3], [1, 2, 3], Vec [0, 0, 0]), snd (PES_set_x [1, 2, 3] ?s))"
    using f1 by (simp add: prod_eq_iff)
  have h0: "PES_set_x [1, 2, 3] (PES_init [(0, 0, 0)] None)
              = (Inr ([1, 2, 3], [1, 2, 3], PyNone),
                 snd (PES_set_x [1, 2, 3] (PES_init [(0, 0, 0)] None)))"
    using f0 by (simp add: prod_eq_iff)
  show ?thesis
    using PES_set_x_cached_gradient [OF r h1 h0] r f1 f0 by simp
qed

end
